theory Spec2Isabelle
  imports Complex_Main "HOL-Library.AList" "HOL-Library.Multiset"
begin

section \<open>Shared vocabulary\<close>

text \<open>
  Both scripts hand Plotly a \<^verbatim>\<open>visible\<close> attribute that is one of Python's
  \<^verbatim>\<open>True\<close>, \<^verbatim>\<open>False\<close> or the string \<^verbatim>\<open>'legendonly'\<close>.
\<close>

datatype visibility = VTrue | VFalse | LegendOnly

text \<open>The ways in which the modelled parts of the scripts can raise.\<close>

datatype error =
    IndexError
  | KeyError string
  | SheetNotFound string
  | AttributeError
  | ValueError string
  | TypeError
  | ParserError

text \<open>Python list indexing with a non-negative index: out of range raises.\<close>

definition list_get :: "'a list \<Rightarrow> nat \<Rightarrow> error + 'a" where
  "list_get xs i = (if i < length xs then Inr (xs ! i) else Inl IndexError)"

section \<open>Script 1: OECD\_tax\_wedge\_by\_taxpayer\_type.py\<close>

subsection \<open>Loader\<close>

text \<open>
  The sheet is read with \<^verbatim>\<open>usecols="A:D"\<close>, and \<^verbatim>\<open>.iloc[:, [0, 1, 2, 3]]\<close> keeps
  these four columns: a country name and three measures per row, any of which may be
  blank. Measures are floats in the script; the model takes them as reals, the only
  operations on them being comparison and copying.
\<close>

record raw_row =
  cell_A :: "string option"
  cell_B :: "real option"
  cell_C :: "real option"
  cell_D :: "real option"

text \<open>
  After \<^verbatim>\<open>df.columns = ["Country", "single_worker", "family_single_earner",
  "family_two_earners"]\<close>.
\<close>

record row =
  Country :: string
  single_worker :: real
  family_single_earner :: real
  family_two_earners :: real

text \<open>\<^verbatim>\<open>.dropna()\<close>: a row with any blank cell is dropped, the others keep their order.\<close>

fun dropna :: "raw_row list \<Rightarrow> row list" where
  "dropna [] = []"
| "dropna (r # rs) =
     (case (cell_A r, cell_B r, cell_C r, cell_D r) of
        (Some c, Some a, Some b, Some d) \<Rightarrow>
          \<lparr>Country = c, single_worker = a, family_single_earner = b, family_two_earners = d\<rparr>
            # dropna rs
      | _ \<Rightarrow> dropna rs)"

definition num_countries :: "row list \<Rightarrow> nat" where
  "num_countries df = length df"

subsection \<open>View builder\<close>

definition connector_color :: string where
  "connector_color = ''gray''"

definition highlight_color :: string where
  "highlight_color = ''red''"

text \<open>The three names of \<^verbatim>\<open>sort_columns_list\<close>, and \<^verbatim>\<open>row[col_name]\<close>.\<close>

datatype sort_column = SingleWorker | FamilySingleEarner | FamilyTwoEarners

definition sort_columns_list :: "sort_column list" where
  "sort_columns_list = [SingleWorker, FamilySingleEarner, FamilyTwoEarners]"

fun col_of :: "sort_column \<Rightarrow> row \<Rightarrow> real" where
  "col_of SingleWorker r = single_worker r"
| "col_of FamilySingleEarner r = family_single_earner r"
| "col_of FamilyTwoEarners r = family_two_earners r"

text \<open>
  \<^verbatim>\<open>df.sort_values(col_name, ascending=False).reset_index(drop=True)\<close>. For a
  descending sort pandas reverses the rows, sorts ascending and reverses the result;
  with a stable ascending sort (here insertion sort) rows with equal keys keep their
  order. The default sort kind of pandas does not promise an order among equal keys;
  nothing proved below depends on it.
\<close>

definition sort_values :: "sort_column \<Rightarrow> row list \<Rightarrow> row list" where
  "sort_values col_name df = rev (sort_key (col_of col_name) (rev df))"

record view =
  trace_x_values :: "real list list"
  trace_y_values :: "string list list"
  trace_line_colors :: "string option list"
  trace_line_widths :: "real option list"
  tick_labels :: "string list"
  country_order :: "string list"

definition empty_view :: view where
  "empty_view = \<lparr>trace_x_values = [], trace_y_values = [], trace_line_colors = [],
     trace_line_widths = [], tick_labels = [], country_order = []\<rparr>"

text \<open>The \<^verbatim>\<open>iterrows\<close> loop: one connector entry per row, appended in row order.\<close>

fun connector_loop :: "row list \<Rightarrow> view \<Rightarrow> view" where
  "connector_loop [] v = v"
| "connector_loop (r # rs) v =
     (let line_color = (if Country r = ''United Kingdom'' then highlight_color else connector_color);
          line_width = (if Country r = ''United Kingdom'' then 3 else 1.5)
      in connector_loop rs
           (v\<lparr>trace_x_values := trace_x_values v
                  @ [[single_worker r, family_single_earner r, family_two_earners r]],
              trace_y_values := trace_y_values v @ [[Country r, Country r, Country r]],
              trace_line_colors := trace_line_colors v @ [Some line_color],
              trace_line_widths := trace_line_widths v @ [Some line_width]\<rparr>))"

text \<open>One point trace: the whole column against the country names, no line style.\<close>

definition append_point_trace :: "sort_column \<Rightarrow> row list \<Rightarrow> view \<Rightarrow> view" where
  "append_point_trace c df_sorted v =
     v\<lparr>trace_x_values := trace_x_values v @ [map (col_of c) df_sorted],
       trace_y_values := trace_y_values v @ [map Country df_sorted],
       trace_line_colors := trace_line_colors v @ [None],
       trace_line_widths := trace_line_widths v @ [None]\<rparr>"

text \<open>The tick-label loop over \<^verbatim>\<open>df_sorted["Country"]\<close>.\<close>

fun tick_loop :: "string list \<Rightarrow> string list \<Rightarrow> string list" where
  "tick_loop [] labels = labels"
| "tick_loop (country_name # rest) labels =
     (if country_name = ''United Kingdom''
      then tick_loop rest
             (labels @ [''<b><span style='color:'' @ highlight_color @ '';'>''
                          @ country_name @ ''</span></b>''])
      else tick_loop rest (labels @ [country_name]))"

text \<open>The body of \<^verbatim>\<open>for col_name in sort_columns_list\<close>.\<close>

definition build_view :: "sort_column \<Rightarrow> row list \<Rightarrow> view" where
  "build_view col_name df =
     (let df_sorted = sort_values col_name df;
          v0 = connector_loop df_sorted empty_view;
          v1 = append_point_trace SingleWorker df_sorted v0;
          v2 = append_point_trace FamilySingleEarner df_sorted v1;
          v3 = append_point_trace FamilyTwoEarners df_sorted v2
      in v3\<lparr>tick_labels := tick_loop (map Country df_sorted) [],
             country_order := map Country df_sorted\<rparr>)"

text \<open>The dictionary \<^verbatim>\<open>sorted_data\<close>, in insertion order.\<close>

fun sorted_data_loop :: "sort_column list \<Rightarrow> row list \<Rightarrow> (sort_column \<times> view) list
    \<Rightarrow> (sort_column \<times> view) list" where
  "sorted_data_loop [] df acc = acc"
| "sorted_data_loop (c # cs) df acc = sorted_data_loop cs df (AList.update c (build_view c df) acc)"

definition sorted_data :: "row list \<Rightarrow> (sort_column \<times> view) list" where
  "sorted_data df = sorted_data_loop sort_columns_list df []"

subsection \<open>Figure\<close>

text \<open>
  A trace of the figure, with the attributes the controls later overwrite. A trace
  built without \<^verbatim>\<open>visible\<close> is shown: Plotly's default is \<^verbatim>\<open>True\<close>. Marker
  symbols, sizes, fonts and the rest of the layout are styling and are left out.
\<close>

record trace1 =
  t_x :: "real list"
  t_y :: "string list"
  t_mode :: string
  t_line_color :: "string option"
  t_line_width :: "real option"
  t_name :: "string option"
  t_visible :: visibility

record figure1 =
  traces :: "trace1 list"
  yaxis_tickvals :: "string list"
  yaxis_ticktext :: "string list"
  yaxis_autorange :: string

definition col_name_of :: "sort_column \<Rightarrow> string" where
  "col_name_of c = (case c of SingleWorker \<Rightarrow> ''single_worker''
     | FamilySingleEarner \<Rightarrow> ''family_single_earner''
     | FamilyTwoEarners \<Rightarrow> ''family_two_earners'')"

text \<open>\<^verbatim>\<open>sorted_data[col_name]\<close>.\<close>

definition sorted_data_get :: "(sort_column \<times> view) list \<Rightarrow> sort_column \<Rightarrow> error + view" where
  "sorted_data_get sd c =
     (case map_of sd c of None \<Rightarrow> Inl (KeyError (col_name_of c)) | Some d \<Rightarrow> Inr d)"

text \<open>Sequencing of steps that may raise.\<close>

definition bind :: "error + 'a \<Rightarrow> ('a \<Rightarrow> error + 'b) \<Rightarrow> error + 'b" where
  "bind m f = (case m of Inl e \<Rightarrow> Inl e | Inr a \<Rightarrow> f a)"

text \<open>\<^verbatim>\<open>for i in range(num_countries)\<close>: the connector traces, at indices 0 to n - 1.\<close>

definition connector_trace :: "view \<Rightarrow> nat \<Rightarrow> error + trace1" where
  "connector_trace initial_data i =
     bind (list_get (trace_x_values initial_data) i) (\<lambda>x.
     bind (list_get (trace_y_values initial_data) i) (\<lambda>y.
     bind (list_get (trace_line_colors initial_data) i) (\<lambda>color.
     bind (list_get (trace_line_widths initial_data) i) (\<lambda>width.
       Inr \<lparr>t_x = x, t_y = y, t_mode = ''lines'', t_line_color = color,
            t_line_width = width, t_name = None, t_visible = VTrue\<rparr>))))"

fun add_connectors :: "view \<Rightarrow> nat list \<Rightarrow> trace1 list \<Rightarrow> error + trace1 list" where
  "add_connectors initial_data [] fig = Inr fig"
| "add_connectors initial_data (i # rest) fig =
     bind (connector_trace initial_data i) (\<lambda>t. add_connectors initial_data rest (fig @ [t]))"

text \<open>The point traces, at indices n, n + 1 and n + 2.\<close>

definition marker_trace :: "view \<Rightarrow> nat \<Rightarrow> string \<Rightarrow> error + trace1" where
  "marker_trace initial_data i nm =
     bind (list_get (trace_x_values initial_data) i) (\<lambda>x.
     bind (list_get (trace_y_values initial_data) i) (\<lambda>y.
       Inr \<lparr>t_x = x, t_y = y, t_mode = ''markers'', t_line_color = None,
            t_line_width = None, t_name = Some nm, t_visible = VTrue\<rparr>))"

definition initial_sort_column :: sort_column where
  "initial_sort_column = SingleWorker"

definition build_figure :: "row list \<Rightarrow> error + figure1" where
  "build_figure df =
     (let n = num_countries df in
      bind (sorted_data_get (sorted_data df) initial_sort_column) (\<lambda>initial_data.
      bind (add_connectors initial_data [0..<n] []) (\<lambda>fig0.
      bind (marker_trace initial_data n ''Single worker'') (\<lambda>m0.
      bind (marker_trace initial_data (n + 1) ''Single-earner family'') (\<lambda>m1.
      bind (marker_trace initial_data (n + 2) ''Two-earner family'') (\<lambda>m2.
        Inr \<lparr>traces = fig0 @ [m0, m1, m2],
             yaxis_tickvals = country_order initial_data,
             yaxis_ticktext = tick_labels initial_data,
             yaxis_autorange = ''reversed''\<rparr>))))))"

subsection \<open>Controls\<close>

text \<open>
  One entry of a restyle dictionary: the constructor is the key (\<^verbatim>\<open>'x'\<close>, \<^verbatim>\<open>'y'\<close>,
  \<^verbatim>\<open>'line.color'\<close>, \<^verbatim>\<open>'line.width'\<close>, \<^verbatim>\<open>'visible'\<close>), its argument the array of
  per-trace values. Likewise for the relayout dictionary (\<^verbatim>\<open>'yaxis.ticktext'\<close>,
  \<^verbatim>\<open>'yaxis.tickvals'\<close>, \<^verbatim>\<open>'yaxis.autorange'\<close>).
\<close>

datatype attr_update =
    X "real list list"
  | Y "string list list"
  | LineColor "string option list"
  | LineWidth "real option list"
  | Visible "visibility list"

datatype layout_update = TickText "string list" | TickVals "string list" | AutoRange string

text \<open>
  A dropdown option: \<^verbatim>\<open>method="update"\<close>, \<^verbatim>\<open>args=[restyle, relayout]\<close>. Its label
  is the column name with spaces for underscores, in title case; the model keeps the
  column.
\<close>

record update_button =
  ub_column :: sort_column
  ub_restyle :: "attr_update list"
  ub_relayout :: "layout_update list"

fun buttons_loop :: "sort_column list \<Rightarrow> (sort_column \<times> view) list \<Rightarrow> update_button list
    \<Rightarrow> error + update_button list" where
  "buttons_loop [] sd buttons = Inr buttons"
| "buttons_loop (sort_col_name # rest) sd buttons =
     bind (sorted_data_get sd sort_col_name) (\<lambda>data_for_button.
       buttons_loop rest sd
         (buttons @ [\<lparr>ub_column = sort_col_name,
                       ub_restyle = [X (trace_x_values data_for_button),
                                     Y (trace_y_values data_for_button),
                                     LineColor (trace_line_colors data_for_button),
                                     LineWidth (trace_line_widths data_for_button)],
                       ub_relayout = [TickText (tick_labels data_for_button),
                                      TickVals (country_order data_for_button),
                                      AutoRange ''reversed'']\<rparr>]))"

definition sort_buttons :: "row list \<Rightarrow> error + update_button list" where
  "sort_buttons df = buttons_loop sort_columns_list (sorted_data df) []"

text \<open>
  The toggle: \<^verbatim>\<open>method="restyle"\<close>, with \<^verbatim>\<open>args\<close> and \<^verbatim>\<open>args2\<close> each a restyle
  dictionary and the list of trace indices it applies to.
\<close>

record toggle_button =
  tb_args :: "attr_update list \<times> nat list"
  tb_args2 :: "attr_update list \<times> nat list"

definition connector_trace_indices :: "nat \<Rightarrow> nat list" where
  "connector_trace_indices n = [0..<n]"

definition toggle_connectors_button :: "nat \<Rightarrow> toggle_button" where
  "toggle_connectors_button n =
     \<lparr>tb_args = ([Visible (replicate n VFalse @ [VTrue, VTrue, VTrue])],
                 connector_trace_indices n @ [n, n + 1, n + 2]),
      tb_args2 = ([Visible (replicate n VTrue @ [VTrue, VTrue, VTrue])],
                  connector_trace_indices n @ [n, n + 1, n + 2])\<rparr>"

subsection \<open>What the controls do to the figure\<close>

text \<open>
  Plotly's restyle: the \<open>k\<close>-th listed trace takes the \<open>k\<close>-th value of each array
  (arrays shorter than the list of traces are cycled through). An empty array and a
  trace index that does not exist are left without effect here; the scripts produce
  neither.
\<close>

fun set_attr :: "attr_update \<Rightarrow> nat \<Rightarrow> trace1 \<Rightarrow> trace1" where
  "set_attr (X vs) k t = (if vs = [] then t else t\<lparr>t_x := vs ! (k mod length vs)\<rparr>)"
| "set_attr (Y vs) k t = (if vs = [] then t else t\<lparr>t_y := vs ! (k mod length vs)\<rparr>)"
| "set_attr (LineColor vs) k t =
     (if vs = [] then t else t\<lparr>t_line_color := vs ! (k mod length vs)\<rparr>)"
| "set_attr (LineWidth vs) k t =
     (if vs = [] then t else t\<lparr>t_line_width := vs ! (k mod length vs)\<rparr>)"
| "set_attr (Visible vs) k t =
     (if vs = [] then t else t\<lparr>t_visible := vs ! (k mod length vs)\<rparr>)"

definition restyle_trace :: "attr_update list \<Rightarrow> nat \<Rightarrow> trace1 \<Rightarrow> trace1" where
  "restyle_trace upd k t = fold (\<lambda>u. set_attr u k) upd t"

fun restyle_from :: "attr_update list \<Rightarrow> nat \<Rightarrow> nat list \<Rightarrow> trace1 list \<Rightarrow> trace1 list" where
  "restyle_from upd k [] ts = ts"
| "restyle_from upd k (i # rest) ts =
     restyle_from upd (Suc k) rest
       (if i < length ts then ts[i := restyle_trace upd k (ts ! i)] else ts)"

definition restyle :: "attr_update list \<times> nat list \<Rightarrow> figure1 \<Rightarrow> figure1" where
  "restyle args fig = fig\<lparr>traces := restyle_from (fst args) 0 (snd args) (traces fig)\<rparr>"

fun relayout1 :: "layout_update \<Rightarrow> figure1 \<Rightarrow> figure1" where
  "relayout1 (TickText ls) fig = fig\<lparr>yaxis_ticktext := ls\<rparr>"
| "relayout1 (TickVals ls) fig = fig\<lparr>yaxis_tickvals := ls\<rparr>"
| "relayout1 (AutoRange a) fig = fig\<lparr>yaxis_autorange := a\<rparr>"

text \<open>Plotly's update with no trace list: the restyle part goes to every trace.\<close>

definition update :: "update_button \<Rightarrow> figure1 \<Rightarrow> figure1" where
  "update b fig =
     fold relayout1 (ub_relayout b)
       (restyle (ub_restyle b, [0..<length (traces fig)]) fig)"

section \<open>Script 2: oecd\_tax\_wedge\_all\_countries\_all\_incomes.py\<close>

subsection \<open>Loader\<close>

text \<open>
  A sheet as \<^verbatim>\<open>read_excel\<close> sees it with \<^verbatim>\<open>header=8\<close>: its columns A, B, C, ... in
  order, each with the name found in the header row and the cells below it. A column
  holds either text or numbers with blanks.
\<close>

datatype xl_cells = Labels "string list" | Numbers "real option list"

record xl_column =
  xl_header :: string
  xl_cells :: xl_cells

type_synonym xl_sheet = "xl_column list"

type_synonym workbook = "string \<rightharpoonup> xl_sheet"

record column =
  col_name :: string
  col_values :: "real option list"

record dataframe =
  df_index :: "real list"
  df_columns :: "column list"

definition sheet_names :: "string list" where
  "sheet_names = [''single_no_children'', ''single_two_children'',
     ''married_2_children'', ''married_no_children'']"

text \<open>
  \<^verbatim>\<open>usecols='B:AO'\<close> asks for the columns at positions 1 to 40; pandas refuses a sheet
  that does not have them all. \<^verbatim>\<open>index_col=0\<close> makes the first of the kept columns
  the index.
\<close>

definition read_excel :: "workbook \<Rightarrow> string \<Rightarrow> error + (xl_column \<times> xl_column list)" where
  "read_excel wb sheet =
     (case wb sheet of
        None \<Rightarrow> Inl (SheetNotFound sheet)
      | Some cols \<Rightarrow>
          if length cols < 41 then Inl ParserError
          else (case take 40 (drop 1 cols) of
                  [] \<Rightarrow> Inl IndexError
                | ix # data \<Rightarrow> Inr (ix, data)))"

text \<open>
  \<^verbatim>\<open>str.replace(old, new)\<close> for a non-empty \<open>old\<close>: occurrences are replaced from the
  left, without overlap.
\<close>

function str_replace :: "string \<Rightarrow> string \<Rightarrow> string \<Rightarrow> string" where
  "str_replace old new [] = []"
| "str_replace old new (c # cs) =
     (if old \<noteq> [] \<and> take (length old) (c # cs) = old
      then new @ str_replace old new (drop (length old) (c # cs))
      else c # str_replace old new cs)"
  by pat_completeness auto
termination
  by (relation "measure (\<lambda>(old, new, s). length s)") (auto simp: neq_Nil_conv)

text \<open>
  The index labels become numbers. \<open>to_float\<close> stands for Python's \<^verbatim>\<open>float\<close> on a
  string, \<open>None\<close> where it raises. A numeric index column has no \<^verbatim>\<open>.str\<close> accessor.
\<close>

fun astype_float :: "(string \<Rightarrow> real option) \<Rightarrow> string list \<Rightarrow> error + real list" where
  "astype_float to_float [] = Inr []"
| "astype_float to_float (s # ss) =
     (case to_float s of
        None \<Rightarrow> Inl (ValueError s)
      | Some v \<Rightarrow> bind (astype_float to_float ss) (\<lambda>vs. Inr (v # vs)))"

definition clean_index :: "(string \<Rightarrow> real option) \<Rightarrow> xl_column \<Rightarrow> error + real list" where
  "clean_index to_float ix =
     (case xl_cells ix of
        Numbers _ \<Rightarrow> Inl AttributeError
      | Labels ls \<Rightarrow> astype_float to_float (map (str_replace ''% of average wage'' []) ls))"

text \<open>The measure columns are numeric; a text column cannot be interpolated.\<close>

fun data_columns :: "xl_column list \<Rightarrow> error + column list" where
  "data_columns [] = Inr []"
| "data_columns (c # cs) =
     (case xl_cells c of
        Labels _ \<Rightarrow> Inl TypeError
      | Numbers vs \<Rightarrow>
          bind (data_columns cs) (\<lambda>rest. Inr (\<lparr>col_name = xl_header c, col_values = vs\<rparr> # rest)))"

subsection \<open>Gap filling\<close>

text \<open>
  The measures are binary64 floats. An arithmetic operation on floats gives the exact
  result rounded to the nearest float, ties to the even one; a float has 53 significant
  bits, and its last bit has an exponent of at least \<open>-1074\<close>. A result beyond the largest
  float, which the script would see as infinity, is outside the model.
\<close>

definition round_even :: "real \<Rightarrow> int" where
  "round_even r =
     (if frac r < 1 / 2 then \<lfloor>r\<rfloor>
      else if 1 / 2 < frac r then \<lfloor>r\<rfloor> + 1
      else if even \<lfloor>r\<rfloor> then \<lfloor>r\<rfloor> else \<lfloor>r\<rfloor> + 1)"

definition ulp_exp :: "real \<Rightarrow> int" where
  "ulp_exp x = max \<lfloor>log 2 \<bar>x\<bar>\<rfloor> (- 1022) - 52"

definition binary64 :: "real \<Rightarrow> real" where
  "binary64 x =
     (if x = 0 then 0
      else of_int (round_even (x / 2 powr of_int (ulp_exp x))) * 2 powr of_int (ulp_exp x))"

definition fadd :: "real \<Rightarrow> real \<Rightarrow> real" where
  "fadd a b = binary64 (a + b)"

definition fsub :: "real \<Rightarrow> real \<Rightarrow> real" where
  "fsub a b = binary64 (a - b)"

definition fmul :: "real \<Rightarrow> real \<Rightarrow> real" where
  "fmul a b = binary64 (a * b)"

definition fdiv :: "real \<Rightarrow> real \<Rightarrow> real" where
  "fdiv a b = binary64 (a / b)"

text \<open>
  \<^verbatim>\<open>numpy.interp(x, xp, fp)\<close> on points sorted by \<open>xp\<close>: constant outside the points;
  between two of them \<^verbatim>\<open>slope*(x - xp[j]) + fp[j]\<close> with the slope
  \<^verbatim>\<open>(fp[j+1] - fp[j]) / (xp[j+1] - xp[j])\<close>, every operation in floats.
\<close>

fun np_interp :: "real \<Rightarrow> (real \<times> real) list \<Rightarrow> real" where
  "np_interp x [] = 0"
| "np_interp x [(x0, y0)] = y0"
| "np_interp x ((x0, y0) # (x1, y1) # ps) =
     (if x \<le> x0 then y0
      else if x < x1 then fadd (fmul (fdiv (fsub y1 y0) (fsub x1 x0)) (fsub x x0)) y0
      else np_interp x ((x1, y1) # ps))"

text \<open>
  pandas' one-dimensional interpolation, forward direction, no limit: a column with no
  present or no missing value is returned as it is; otherwise every missing value is
  computed by \<open>np_interp\<close> from the present ones, and those before the first present
  value are set back to missing. \<open>indices\<close> are the x coordinates of the rows.
\<close>

definition valid_points :: "real list \<Rightarrow> real option list \<Rightarrow> (real \<times> real) list" where
  "valid_points indices yvalues =
     concat (map (\<lambda>(x, y). case y of None \<Rightarrow> [] | Some v \<Rightarrow> [(x, v)]) (zip indices yvalues))"

definition first_valid_index :: "real option list \<Rightarrow> nat" where
  "first_valid_index yvalues = length (takeWhile (\<lambda>y. y = None) yvalues)"

definition interpolate_1d :: "real list \<Rightarrow> real option list \<Rightarrow> real option list" where
  "interpolate_1d indices yvalues =
     (if \<not> (\<exists>y \<in> set yvalues. y \<noteq> None) then yvalues
      else if \<forall>y \<in> set yvalues. y \<noteq> None then yvalues
      else map (\<lambda>(i, x, y).
                  case y of
                    Some v \<Rightarrow> Some v
                  | None \<Rightarrow> if i < first_valid_index yvalues then None
                            else Some (np_interp x (valid_points indices yvalues)))
             (zip [0..<length yvalues] (zip indices yvalues)))"

text \<open>
  \<^verbatim>\<open>tmp.interpolate(method='linear', axis=0)\<close>, column by column. For the method
  \<^verbatim>\<open>'linear'\<close> pandas takes the row positions 0, 1, 2, ... as x coordinates, whatever
  the index holds.
\<close>

definition interpolate_linear_column :: "column \<Rightarrow> column" where
  "interpolate_linear_column c =
     c\<lparr>col_values := interpolate_1d (map real [0..<length (col_values c)]) (col_values c)\<rparr>"

definition interpolate_linear :: "dataframe \<Rightarrow> dataframe" where
  "interpolate_linear tmp = tmp\<lparr>df_columns := map interpolate_linear_column (df_columns tmp)\<rparr>"

text \<open>The body of \<^verbatim>\<open>for sheet in sheet_names\<close>, and the loop filling \<^verbatim>\<open>dfs\<close>.\<close>

definition load_sheet :: "(string \<Rightarrow> real option) \<Rightarrow> workbook \<Rightarrow> string \<Rightarrow> error + dataframe" where
  "load_sheet to_float wb sheet =
     bind (read_excel wb sheet) (\<lambda>(ix, data).
     bind (clean_index to_float ix) (\<lambda>idx.
     bind (data_columns data) (\<lambda>cols.
       Inr (interpolate_linear \<lparr>df_index = idx, df_columns = cols\<rparr>))))"

fun load_loop :: "(string \<Rightarrow> real option) \<Rightarrow> workbook \<Rightarrow> string list \<Rightarrow> (string \<rightharpoonup> dataframe)
    \<Rightarrow> error + (string \<rightharpoonup> dataframe)" where
  "load_loop to_float wb [] dfs = Inr dfs"
| "load_loop to_float wb (sheet # rest) dfs =
     bind (load_sheet to_float wb sheet) (\<lambda>df. load_loop to_float wb rest (dfs(sheet \<mapsto> df)))"

definition load_all :: "(string \<Rightarrow> real option) \<Rightarrow> workbook \<Rightarrow> error + (string \<rightharpoonup> dataframe)" where
  "load_all to_float wb = load_loop to_float wb sheet_names Map.empty"

subsection \<open>Figure\<close>

text \<open>
  The traces with the attributes that depend on the data. The common axis limits, the
  logo, fonts and the rest of the layout are styling and are left out.
\<close>

definition colours :: "string list" where
  "colours = [''black'', ''blue'', ''blueviolet'', ''brown'', ''cadetblue'', ''chocolate'',
     ''coral'', ''crimson'', ''cyan'', ''darkblue'',
     ''darkcyan'', ''darkgoldenrod'', ''darkgreen'', ''darkmagenta'', ''darkolivegreen'',
     ''darkorange'', ''darkorchid'', ''darkred'', ''darksalmon'', ''darkslateblue'',
     ''darkslategray'', ''darkturquoise'', ''darkviolet'', ''deeppink'', ''deepskyblue'',
     ''dodgerblue'', ''firebrick'', ''forestgreen'', ''fuchsia'', ''green'',
     ''hotpink'', ''indianred'', ''indigo'', ''maroon'', ''mediumblue'', ''mediumorchid'',
     ''mediumseagreen'', ''mediumslateblue'', ''orangered'', ''purple'']"

definition red_country :: string where
  "red_country = ''United Kingdom''"

text \<open>
  The last name is \<^verbatim>\<open>'T\<close>, u with diaeresis, \<^verbatim>\<open>rkiye'\<close>; the letter is written as the
  two bytes of its UTF-8 encoding. Only equality of names is ever used.
\<close>

definition highlight :: "string list" where
  "highlight = [''United Kingdom'', ''United States'', ''France'', ''Germany'', ''Italy'',
     ''Spain'', ''Canada'', ''Sweden'', ''Belgium'', ''Netherlands'', ''Poland'',
     ''T'' @ [char_of (195 :: nat), char_of (188 :: nat)] @ ''rkiye'']"

definition default_sheet :: string where
  "default_sheet = sheet_names ! 0"

record trace2 =
  tr_x :: "real list"
  tr_y :: "real option list"
  tr_name :: string
  tr_legendgroup :: string
  tr_visible :: visibility
  tr_line_color :: string
  tr_text :: "string list"
  tr_textfont_color :: string

text \<open>\<^verbatim>\<open>dfs[sheet]\<close> and \<^verbatim>\<open>df_sheet[country]\<close>.\<close>

definition dfs_get :: "(string \<rightharpoonup> dataframe) \<Rightarrow> string \<Rightarrow> error + dataframe" where
  "dfs_get dfs sheet = (case dfs sheet of None \<Rightarrow> Inl (KeyError sheet) | Some df \<Rightarrow> Inr df)"

definition df_getitem :: "dataframe \<Rightarrow> string \<Rightarrow> error + real option list" where
  "df_getitem df country =
     (case find (\<lambda>c. col_name c = country) (df_columns df) of
        None \<Rightarrow> Inl (KeyError country)
      | Some c \<Rightarrow> Inr (col_values c))"

text \<open>
  The body of \<^verbatim>\<open>for idx, country in enumerate(df_sheet.columns)\<close>. The colour is
  looked up in \<open>colours\<close> only for a country other than \<open>red_country\<close>.
\<close>

definition make_trace :: "string \<Rightarrow> dataframe \<Rightarrow> nat \<Rightarrow> string \<Rightarrow> error + trace2" where
  "make_trace sheet df_sheet idx country =
     (let vis = (if sheet = default_sheet
                 then (if country \<in> set highlight then VTrue else LegendOnly)
                 else VFalse);
          txt = replicate (length (df_index df_sheet) - 1) [] @ [country]
      in bind (df_getitem df_sheet country) (\<lambda>y.
         bind (if country = red_country then Inr ''red'' else list_get colours idx) (\<lambda>line_color.
         bind (if country = red_country then Inr ''red'' else list_get colours idx) (\<lambda>font_color.
           Inr \<lparr>tr_x = df_index df_sheet, tr_y = y, tr_name = country,
                tr_legendgroup = country, tr_visible = vis, tr_line_color = line_color,
                tr_text = txt, tr_textfont_color = font_color\<rparr>))))"

fun country_loop :: "string \<Rightarrow> dataframe \<Rightarrow> nat \<Rightarrow> string list \<Rightarrow> trace2 list
    \<Rightarrow> error + trace2 list" where
  "country_loop sheet df_sheet idx [] fig = Inr fig"
| "country_loop sheet df_sheet idx (country # rest) fig =
     bind (make_trace sheet df_sheet idx country) (\<lambda>t.
       country_loop sheet df_sheet (Suc idx) rest (fig @ [t]))"

fun sheet_loop :: "(string \<rightharpoonup> dataframe) \<Rightarrow> string list \<Rightarrow> trace2 list \<Rightarrow> error + trace2 list" where
  "sheet_loop dfs [] fig = Inr fig"
| "sheet_loop dfs (sheet # rest) fig =
     bind (dfs_get dfs sheet) (\<lambda>df_sheet.
     bind (country_loop sheet df_sheet 0 (map col_name (df_columns df_sheet)) fig) (\<lambda>fig'.
       sheet_loop dfs rest fig'))"

definition build_traces :: "(string \<rightharpoonup> dataframe) \<Rightarrow> error + trace2 list" where
  "build_traces dfs = sheet_loop dfs sheet_names []"

subsection \<open>Dropdown\<close>

text \<open>
  A scenario button: \<^verbatim>\<open>method='update'\<close>, \<^verbatim>\<open>args=[{'visible': mask}]\<close>. Its
  label is the sheet name with spaces for underscores, in title case; the model keeps
  the sheet name.
\<close>

record scenario_button =
  sb_sheet :: string
  sb_visible :: "visibility list"

fun mask_countries :: "bool \<Rightarrow> string list \<Rightarrow> visibility list \<Rightarrow> visibility list" where
  "mask_countries selected [] vmask = vmask"
| "mask_countries selected (country # rest) vmask =
     (if selected
      then mask_countries selected rest
             (vmask @ [if country \<in> set highlight then VTrue else LegendOnly])
      else mask_countries selected rest (vmask @ [VFalse]))"

fun mask_loop :: "(string \<rightharpoonup> dataframe) \<Rightarrow> string \<Rightarrow> string list \<Rightarrow> visibility list
    \<Rightarrow> error + visibility list" where
  "mask_loop dfs sheet [] vmask = Inr vmask"
| "mask_loop dfs sheet (s # rest) vmask =
     bind (dfs_get dfs s) (\<lambda>df.
       mask_loop dfs sheet rest (mask_countries (s = sheet) (map col_name (df_columns df)) vmask))"

fun scenario_buttons_loop :: "(string \<rightharpoonup> dataframe) \<Rightarrow> string list \<Rightarrow> scenario_button list
    \<Rightarrow> error + scenario_button list" where
  "scenario_buttons_loop dfs [] bs = Inr bs"
| "scenario_buttons_loop dfs (sheet # rest) bs =
     bind (mask_loop dfs sheet sheet_names []) (\<lambda>vmask.
       scenario_buttons_loop dfs rest (bs @ [\<lparr>sb_sheet = sheet, sb_visible = vmask\<rparr>]))"

definition scenario_buttons :: "(string \<rightharpoonup> dataframe) \<Rightarrow> error + scenario_button list" where
  "scenario_buttons dfs = scenario_buttons_loop dfs sheet_names []"

section \<open>Scenarios\<close>

text \<open>The two-row table of the specification's concrete scenario.\<close>

definition france_spain :: "row list" where
  "france_spain =
     [\<lparr>Country = ''France'', single_worker = 0.30, family_single_earner = 0.35,
        family_two_earners = 0.40\<rparr>,
      \<lparr>Country = ''Spain'', single_worker = 0.28, family_single_earner = 0.30,
        family_two_earners = 0.45\<rparr>]"

text \<open>
  A click on a legend entry: Plotly switches that trace between shown and legend-only.
  Hidden traces have no legend entry.
\<close>

definition legend_click :: "nat \<Rightarrow> figure1 \<Rightarrow> figure1" where
  "legend_click i fig =
     (if i < length (traces fig)
      then fig\<lparr>traces := (traces fig)[i := (traces fig ! i)
              \<lparr>t_visible := (case t_visible (traces fig ! i) of
                               VTrue \<Rightarrow> LegendOnly
                             | LegendOnly \<Rightarrow> VTrue
                             | VFalse \<Rightarrow> VFalse)\<rparr>]\<rparr>
      else fig)"

text \<open>
  The visibility of the traces of script 1 after the connectors have been hidden with
  the toggle's first payload and option \<open>k\<close> of the sort dropdown has then been chosen.
\<close>

definition hide_then_sort :: "row list \<Rightarrow> nat \<Rightarrow> error + visibility list" where
  "hide_then_sort df k =
     bind (build_figure df) (\<lambda>fig.
     bind (sort_buttons df) (\<lambda>bs.
     bind (list_get bs k) (\<lambda>b.
       Inr (map t_visible
             (traces (update b
               (restyle (tb_args (toggle_connectors_button (num_countries df))) fig)))))))"

text \<open>
  The visibility of the traces of script 1 after a click on the legend entry of trace
  \<open>i\<close>, and after the toggle's first payload has then been applied.
\<close>

definition legend_click_then_toggle :: "row list \<Rightarrow> nat
    \<Rightarrow> error + (visibility list \<times> visibility list)" where
  "legend_click_then_toggle df i =
     bind (build_figure df) (\<lambda>fig.
       Inr (map t_visible (traces (legend_click i fig)),
            map t_visible
              (traces (restyle (tb_args (toggle_connectors_button (num_countries df)))
                        (legend_click i fig)))))"



text \<open>
  A table of three countries at three income levels, and the dictionary that holds it
  for every scenario.
\<close>

definition sample_df :: dataframe where
  "sample_df =
     \<lparr>df_index = [50, 100, 250],
      df_columns = [\<lparr>col_name = ''France'', col_values = [Some 10, Some 30, Some 50]\<rparr>,
                    \<lparr>col_name = ''Iceland'', col_values = [Some 30, Some 32, Some 35]\<rparr>,
                    \<lparr>col_name = ''United Kingdom'', col_values = [Some 20, Some 25, Some 30]\<rparr>]\<rparr>"

definition sample_dfs :: "string \<rightharpoonup> dataframe" where
  "sample_dfs sheet = (if sheet \<in> set sheet_names then Some sample_df else None)"

text \<open>
  A workbook for the loader of script 2. Every sheet has the 41 columns A to AO: column
  A is outside the column range, column B holds the labels of three income levels that
  are not evenly spaced, and the other 39 columns hold one series each. France has a
  gap at the middle level.
\<close>

definition wide_names :: "string list" where
  "wide_names =
     [''Australia'', ''Austria'', ''Belgium'', ''Canada'', ''Chile'', ''Colombia'',
      ''Costa Rica'', ''Czechia'', ''Denmark'', ''Estonia'', ''Finland'', ''France'',
      ''Germany'', ''Greece'', ''Hungary'', ''Iceland'', ''Ireland'', ''Israel'', ''Italy'',
      ''Japan'', ''Korea'', ''Latvia'', ''Lithuania'', ''Luxembourg'', ''Mexico'',
      ''Netherlands'', ''New Zealand'', ''Norway'', ''Poland'', ''Portugal'',
      ''Slovak Republic'', ''Slovenia'', ''Spain'', ''Sweden'', ''Switzerland'',
      ''T'' @ [char_of (195 :: nat), char_of (188 :: nat)] @ ''rkiye'',
      ''United Kingdom'', ''United States'', ''OECD - Average'']"

definition wide_cells :: "string \<Rightarrow> real option list" where
  "wide_cells name =
     (if name = ''France'' then [Some 10, None, Some 50] else [Some 20, Some 25, Some 30])"

definition wide_sheet :: xl_sheet where
  "wide_sheet =
     \<lparr>xl_header = ''Unnamed: 0'', xl_cells = Numbers [None, None, None]\<rparr>
     # \<lparr>xl_header = ''Unnamed: 1'',
         xl_cells = Labels [''50% of average wage'', ''100% of average wage'',
                            ''250% of average wage'']\<rparr>
     # map (\<lambda>name. \<lparr>xl_header = name, xl_cells = Numbers (wide_cells name)\<rparr>) wide_names"

definition wide_workbook :: workbook where
  "wide_workbook sheet = (if sheet \<in> set sheet_names then Some wide_sheet else None)"

text \<open>Python's \<^verbatim>\<open>float\<close> on the three strings left of the labels of \<open>wide_sheet\<close>.\<close>

definition sample_to_float :: "string \<Rightarrow> real option" where
  "sample_to_float s = map_of [(''50'', 50), (''100'', 100), (''250'', 250)] s"

text \<open>What the loader makes of \<open>wide_sheet\<close>, and of \<open>wide_workbook\<close>.\<close>

definition wide_filled :: "string \<Rightarrow> real option list" where
  "wide_filled name =
     (if name = ''France'' then [Some 10, Some 30, Some 50] else [Some 20, Some 25, Some 30])"

definition wide_df :: dataframe where
  "wide_df =
     \<lparr>df_index = [50, 100, 250],
      df_columns = map (\<lambda>name. \<lparr>col_name = name, col_values = wide_filled name\<rparr>) wide_names\<rparr>"

definition wide_dfs :: "string \<rightharpoonup> dataframe" where
  "wide_dfs sheet = (if sheet \<in> set sheet_names then Some wide_df else None)"

section \<open>Properties of script 1\<close>

subsection \<open>Sequencing\<close>

lemma bind_Inr: "bind (Inr a) f = f a"
  by (simp add: bind_def)

lemma bind_Inl: "bind (Inl e) f = Inl e"
  by (simp add: bind_def)

lemma bind_eq_Inr: "bind m f = Inr b \<longleftrightarrow> (\<exists>a. m = Inr a \<and> f a = Inr b)"
  by (cases m) (simp_all add: bind_def)

subsection \<open>The arrays of a view\<close>

lemma connector_loop_x:
  "trace_x_values (connector_loop rs v) =
     trace_x_values v @ map (\<lambda>r. [single_worker r, family_single_earner r, family_two_earners r]) rs"
  by (induction rs arbitrary: v) (simp_all add: Let_def)

lemma connector_loop_y:
  "trace_y_values (connector_loop rs v) =
     trace_y_values v @ map (\<lambda>r. [Country r, Country r, Country r]) rs"
  by (induction rs arbitrary: v) (simp_all add: Let_def)

lemma connector_loop_colors:
  "trace_line_colors (connector_loop rs v) =
     trace_line_colors v
     @ map (\<lambda>r. Some (if Country r = ''United Kingdom'' then highlight_color else connector_color)) rs"
  by (induction rs arbitrary: v) (simp_all add: Let_def)

lemma connector_loop_widths:
  "trace_line_widths (connector_loop rs v) =
     trace_line_widths v @ map (\<lambda>r. Some (if Country r = ''United Kingdom'' then 3 else 1.5)) rs"
  by (induction rs arbitrary: v) (simp_all add: Let_def)

lemma build_view_x:
  "trace_x_values (build_view c df) =
     map (\<lambda>r. [single_worker r, family_single_earner r, family_two_earners r]) (sort_values c df)
     @ [map single_worker (sort_values c df), map family_single_earner (sort_values c df),
        map family_two_earners (sort_values c df)]"
  by (simp add: build_view_def Let_def append_point_trace_def connector_loop_x empty_view_def
      cong: map_cong)

lemma build_view_y:
  "trace_y_values (build_view c df) =
     map (\<lambda>r. [Country r, Country r, Country r]) (sort_values c df)
     @ replicate 3 (map Country (sort_values c df))"
  by (simp add: build_view_def Let_def append_point_trace_def connector_loop_y empty_view_def
      numeral_3_eq_3)

lemma build_view_colors:
  "trace_line_colors (build_view c df) =
     map (\<lambda>r. Some (if Country r = ''United Kingdom'' then highlight_color else connector_color))
       (sort_values c df) @ [None, None, None]"
  by (simp add: build_view_def Let_def append_point_trace_def connector_loop_colors empty_view_def)

lemma build_view_widths:
  "trace_line_widths (build_view c df) =
     map (\<lambda>r. Some (if Country r = ''United Kingdom'' then 3 else 1.5))
       (sort_values c df) @ [None, None, None]"
  by (simp add: build_view_def Let_def append_point_trace_def connector_loop_widths empty_view_def)

lemma build_view_order: "country_order (build_view c df) = map Country (sort_values c df)"
  by (simp add: build_view_def Let_def)

lemma build_view_ticks:
  "tick_labels (build_view c df) = tick_loop (map Country (sort_values c df)) []"
  by (simp add: build_view_def Let_def)

lemma length_sort_values: "length (sort_values c df) = length df"
  by (simp add: sort_values_def)

lemma mset_sort_values: "mset (sort_values c df) = mset df"
  by (simp add: sort_values_def)

lemma sort_values_desc: "sorted_wrt (\<ge>) (map (col_of c) (sort_values c df))"
proof -
  have "sorted (map (col_of c) (sort_key (col_of c) (rev df)))"
    by simp
  then have "sorted_wrt (\<lambda>x y. y \<le> x) (rev (map (col_of c) (sort_key (col_of c) (rev df))))"
    by (simp add: sorted_wrt_rev)
  then show ?thesis
    by (simp add: sort_values_def rev_map)
qed

lemma tick_loop_length: "length (tick_loop cs labels) = length labels + length cs"
  by (induction cs arbitrary: labels) simp_all

lemma tick_loop_nth_old: "j < length labels \<Longrightarrow> tick_loop cs labels ! j = labels ! j"
  by (induction cs arbitrary: labels) (simp_all add: nth_append)

lemma tick_loop_nth_new:
  "j < length cs \<Longrightarrow> tick_loop cs labels ! (length labels + j) =
     (if cs ! j = ''United Kingdom''
      then ''<b><span style='color:'' @ highlight_color @ '';'>'' @ cs ! j @ ''</span></b>''
      else cs ! j)"
proof (induction cs arbitrary: labels j)
  case Nil
  then show ?case by simp
next
  case (Cons c cs)
  show ?case
  proof (cases j)
    case 0
    then show ?thesis by (simp add: tick_loop_nth_old nth_append)
  next
    case (Suc k)
    with Cons.prems have k: "k < length cs" by simp
    let ?l = "if c = ''United Kingdom''
      then ''<b><span style='color:'' @ highlight_color @ '';'>'' @ c @ ''</span></b>'' else c"
    show ?thesis
      using Cons.IH[OF k, of "labels @ [?l]"] Suc by (simp split: if_splits)
  qed
qed

lemma sorted_data_eq:
  "sorted_data df = [(SingleWorker, build_view SingleWorker df),
     (FamilySingleEarner, build_view FamilySingleEarner df),
     (FamilyTwoEarners, build_view FamilyTwoEarners df)]"
  by (simp add: sorted_data_def sort_columns_list_def)

lemma sorted_data_lookup: "map_of (sorted_data df) c = Some (build_view c df)"
  by (cases c) (simp_all add: sorted_data_eq)

lemma sorted_data_get_eq: "sorted_data_get (sorted_data df) c = Inr (build_view c df)"
  by (simp add: sorted_data_get_def sorted_data_lookup)

subsection \<open>The controls\<close>

lemma buttons_loop_eq:
  "buttons_loop cs (sorted_data df) acc =
     Inr (acc @ map (\<lambda>c. \<lparr>ub_column = c,
        ub_restyle = [X (trace_x_values (build_view c df)), Y (trace_y_values (build_view c df)),
                       LineColor (trace_line_colors (build_view c df)),
                       LineWidth (trace_line_widths (build_view c df))],
        ub_relayout = [TickText (tick_labels (build_view c df)),
                        TickVals (country_order (build_view c df)), AutoRange ''reversed'']\<rparr>) cs)"
  by (induction cs arbitrary: acc) (simp_all add: sorted_data_get_eq bind_Inr)

lemma set_attr_visible: "(\<forall>vs. u \<noteq> Visible vs) \<Longrightarrow> t_visible (set_attr u k t) = t_visible t"
  by (cases u) simp_all

lemma restyle_trace_visible:
  "\<forall>vs. Visible vs \<notin> set upd \<Longrightarrow> t_visible (restyle_trace upd k t) = t_visible t"
  unfolding restyle_trace_def
proof (induction upd arbitrary: t)
  case Nil
  then show ?case by simp
next
  case (Cons u upd)
  then have "t_visible (fold (\<lambda>u. set_attr u k) upd (set_attr u k t)) = t_visible (set_attr u k t)"
    by simp
  moreover have "t_visible (set_attr u k t) = t_visible t"
    using Cons.prems by (intro set_attr_visible) auto
  ultimately show ?case by simp
qed

lemma restyle_from_visible:
  "\<forall>vs. Visible vs \<notin> set upd \<Longrightarrow>
     map t_visible (restyle_from upd k idxs ts) = map t_visible ts"
proof (induction idxs arbitrary: k ts)
  case Nil
  then show ?case by simp
next
  case (Cons i idxs)
  show ?case
    using Cons.IH[OF Cons.prems] Cons.prems
    by (simp add: map_update restyle_trace_visible list_update_same_conv)
qed

lemma relayout_traces: "traces (fold relayout1 ls fig) = traces fig"
proof (induction ls arbitrary: fig)
  case Nil
  then show ?case by simp
next
  case (Cons l ls)
  then show ?case by (cases l) simp_all
qed

lemma update_visible:
  "\<forall>vs. Visible vs \<notin> set (ub_restyle b) \<Longrightarrow>
     map t_visible (traces (update b fig)) = map t_visible (traces fig)"
  by (simp add: update_def relayout_traces restyle_def restyle_from_visible)

lemma restyle_from_length: "length (restyle_from upd k idxs ts) = length ts"
  by (induction idxs arbitrary: k ts) simp_all

lemma restyle_from_upt:
  "m \<le> length ts \<Longrightarrow> i < length ts \<Longrightarrow>
     restyle_from upd k [k..<m] ts ! i =
       (if k \<le> i \<and> i < m then restyle_trace upd i (ts ! i) else ts ! i)"
proof (induction "m - k" arbitrary: k ts)
  case 0
  then show ?case by auto
next
  case (Suc d)
  then have km: "k < m" by simp
  have d: "d = m - Suc k" using Suc.hyps by simp
  let ?ts = "ts[k := restyle_trace upd k (ts ! k)]"
  have "restyle_from upd k [k..<m] ts ! i = restyle_from upd (Suc k) [Suc k..<m] ?ts ! i"
    using km Suc.prems by (simp add: upt_conv_Cons)
  also have "\<dots> = (if Suc k \<le> i \<and> i < m then restyle_trace upd i (?ts ! i) else ?ts ! i)"
    using Suc.hyps(1)[OF d, of ?ts] Suc.prems by simp
  also have "\<dots> = (if k \<le> i \<and> i < m then restyle_trace upd i (ts ! i) else ts ! i)"
    using km Suc.prems by (auto simp: nth_list_update)
  finally show ?case .
qed

lemma toggle_indices: "connector_trace_indices n @ [n, n + 1, n + 2] = [0..<n + 3]"
  by (simp add: connector_trace_indices_def numeral_3_eq_3
      upt_rec[of n] upt_rec[of "Suc n"] upt_rec[of "Suc (Suc n)"])

lemma sort_buttons_eq:
  "sort_buttons df =
     Inr (map (\<lambda>c. \<lparr>ub_column = c,
        ub_restyle = [X (trace_x_values (build_view c df)), Y (trace_y_values (build_view c df)),
                       LineColor (trace_line_colors (build_view c df)),
                       LineWidth (trace_line_widths (build_view c df))],
        ub_relayout = [TickText (tick_labels (build_view c df)),
                        TickVals (country_order (build_view c df)), AutoRange ''reversed'']\<rparr>)
       sort_columns_list)"
  by (simp add: sort_buttons_def buttons_loop_eq)

lemma add_connectors_eq:
  assumes "\<forall>i \<in> set idxs. i < length (trace_x_values v) \<and> i < length (trace_y_values v)
     \<and> i < length (trace_line_colors v) \<and> i < length (trace_line_widths v)"
  shows "add_connectors v idxs fig =
     Inr (fig @ map (\<lambda>i. \<lparr>t_x = trace_x_values v ! i, t_y = trace_y_values v ! i,
                          t_mode = ''lines'', t_line_color = trace_line_colors v ! i,
                          t_line_width = trace_line_widths v ! i, t_name = None,
                          t_visible = VTrue\<rparr>) idxs)"
  using assms
proof (induction idxs arbitrary: fig)
  case Nil
  then show ?case by simp
next
  case (Cons i idxs)
  then show ?case
    by (simp add: connector_trace_def list_get_def bind_Inr)
qed

lemma build_view_lengths:
  "length (trace_x_values (build_view c df)) = length df + 3"
  "length (trace_y_values (build_view c df)) = length df + 3"
  "length (trace_line_colors (build_view c df)) = length df + 3"
  "length (trace_line_widths (build_view c df)) = length df + 3"
  by (simp_all add: build_view_x build_view_y build_view_colors build_view_widths
      length_sort_values)

lemma build_figure_eq:
  "build_figure df =
     Inr \<lparr>traces =
            map (\<lambda>i. \<lparr>t_x = trace_x_values (build_view SingleWorker df) ! i,
                       t_y = trace_y_values (build_view SingleWorker df) ! i,
                       t_mode = ''lines'',
                       t_line_color = trace_line_colors (build_view SingleWorker df) ! i,
                       t_line_width = trace_line_widths (build_view SingleWorker df) ! i,
                       t_name = None, t_visible = VTrue\<rparr>) [0..<length df]
            @ [\<lparr>t_x = trace_x_values (build_view SingleWorker df) ! length df,
                 t_y = trace_y_values (build_view SingleWorker df) ! length df,
                 t_mode = ''markers'', t_line_color = None, t_line_width = None,
                 t_name = Some ''Single worker'', t_visible = VTrue\<rparr>,
               \<lparr>t_x = trace_x_values (build_view SingleWorker df) ! (length df + 1),
                 t_y = trace_y_values (build_view SingleWorker df) ! (length df + 1),
                 t_mode = ''markers'', t_line_color = None, t_line_width = None,
                 t_name = Some ''Single-earner family'', t_visible = VTrue\<rparr>,
               \<lparr>t_x = trace_x_values (build_view SingleWorker df) ! (length df + 2),
                 t_y = trace_y_values (build_view SingleWorker df) ! (length df + 2),
                 t_mode = ''markers'', t_line_color = None, t_line_width = None,
                 t_name = Some ''Two-earner family'', t_visible = VTrue\<rparr>],
          yaxis_tickvals = country_order (build_view SingleWorker df),
          yaxis_ticktext = tick_labels (build_view SingleWorker df),
          yaxis_autorange = ''reversed''\<rparr>"
proof -
  have "add_connectors (build_view SingleWorker df) [0..<length df] [] =
     Inr ([] @ map (\<lambda>i. \<lparr>t_x = trace_x_values (build_view SingleWorker df) ! i,
                       t_y = trace_y_values (build_view SingleWorker df) ! i,
                       t_mode = ''lines'',
                       t_line_color = trace_line_colors (build_view SingleWorker df) ! i,
                       t_line_width = trace_line_widths (build_view SingleWorker df) ! i,
                       t_name = None, t_visible = VTrue\<rparr>) [0..<length df])"
    by (rule add_connectors_eq) (simp add: build_view_lengths)
  then show ?thesis
    by (simp add: build_figure_def num_countries_def initial_sort_column_def sorted_data_get_eq
        bind_Inr marker_trace_def list_get_def build_view_lengths Let_def)
qed

lemma build_figure_length:
  "build_figure df = Inr fig \<Longrightarrow> length (traces fig) = num_countries df + 3"
  by (auto simp: build_figure_eq num_countries_def)

lemma restyle_visible_nth:
  assumes "length vs = length ts" "i < length ts"
  shows "traces (restyle ([Visible vs], [0..<length ts]) (fig\<lparr>traces := ts\<rparr>)) ! i
     = (ts ! i)\<lparr>t_visible := vs ! i\<rparr>"
  using assms by (auto simp: restyle_def restyle_from_upt restyle_trace_def)

lemma sort_france_spain:
  "sort_values FamilyTwoEarners france_spain =
     [\<lparr>Country = ''Spain'', single_worker = 0.28, family_single_earner = 0.30,
        family_two_earners = 0.45\<rparr>,
      \<lparr>Country = ''France'', single_worker = 0.30, family_single_earner = 0.35,
        family_two_earners = 0.40\<rparr>]"
  by (simp add: sort_values_def france_spain_def)

lemma sort_spain_france:
  "sort_values FamilyTwoEarners (rev france_spain) = sort_values FamilyTwoEarners france_spain"
  by (simp add: sort_values_def france_spain_def)

lemma build_figure_visible:
  assumes "build_figure df = Inr fig"
  shows "map t_visible (traces fig) = replicate (num_countries df + 3) VTrue"
proof -
  have "replicate (length df + 3) VTrue = replicate (length df) VTrue @ replicate 3 VTrue"
    by (rule replicate_add)
  then show ?thesis
    using assms by (auto simp: build_figure_eq num_countries_def comp_def numeral_3_eq_3 map_replicate_const)
qed

lemma toggle_args_visible:
  assumes "length (traces fig) = n + 3"
  shows "map t_visible (traces (restyle (tb_args (toggle_connectors_button n)) fig))
     = replicate n VFalse @ [VTrue, VTrue, VTrue]"
proof -
  let ?vs = "replicate n VFalse @ [VTrue, VTrue, VTrue]"
  have idx: "connector_trace_indices n @ [n, n + 1, n + 2] = [0..<length (traces fig)]"
    unfolding toggle_indices assms ..
  have a: "tb_args (toggle_connectors_button n) = ([Visible ?vs], [0..<length (traces fig)])"
    unfolding toggle_connectors_button_def idx by simp
  have fig: "fig\<lparr>traces := traces fig\<rparr> = fig"
    by simp
  have len: "length ?vs = length (traces fig)"
    using assms by simp
  show ?thesis
  proof (rule nth_equalityI)
    show "length (map t_visible (traces (restyle (tb_args (toggle_connectors_button n)) fig)))
       = length ?vs"
      using len by (simp add: restyle_def restyle_from_length)
  next
    fix i
    assume "i < length (map t_visible (traces (restyle (tb_args (toggle_connectors_button n)) fig)))"
    then have i: "i < length (traces fig)"
      by (simp add: restyle_def restyle_from_length)
    have "traces (restyle ([Visible ?vs], [0..<length (traces fig)]) (fig\<lparr>traces := traces fig\<rparr>)) ! i
       = (traces fig ! i)\<lparr>t_visible := ?vs ! i\<rparr>"
      using len i by (rule restyle_visible_nth)
    then show "map t_visible (traces (restyle (tb_args (toggle_connectors_button n)) fig)) ! i
       = ?vs ! i"
      using i unfolding a fig by (simp add: restyle_def restyle_from_length)
  qed
qed

lemma legend_click_visible:
  assumes "i < length (traces fig)" "t_visible (traces fig ! i) = VTrue"
  shows "map t_visible (traces (legend_click i fig)) = (map t_visible (traces fig))[i := LegendOnly]"
  using assms by (simp add: legend_click_def map_update)

lemma num_countries_france_spain: "num_countries france_spain = 2"
  by (simp add: num_countries_def france_spain_def)

lemma restyle_trace_view:
  assumes "i < length xs" "i < length ys" "i < length cs" "i < length ws"
  shows "restyle_trace [X xs, Y ys, LineColor cs, LineWidth ws] i t
     = t\<lparr>t_x := xs ! i, t_y := ys ! i, t_line_color := cs ! i, t_line_width := ws ! i\<rparr>"
  using assms by (auto simp: restyle_trace_def)

lemma update_layout:
  assumes "ub_relayout b = [TickText tt, TickVals tv, AutoRange ar]"
  shows "yaxis_ticktext (update b fig) = tt \<and> yaxis_tickvals (update b fig) = tv
     \<and> yaxis_autorange (update b fig) = ar"
  by (simp add: update_def assms)

lemma update_traces_nth:
  assumes "ub_restyle b = [X xs, Y ys, LineColor cs, LineWidth ws]"
    and "length xs = length (traces fig)" "length ys = length (traces fig)"
    and "length cs = length (traces fig)" "length ws = length (traces fig)"
    and "i < length (traces fig)"
  shows "traces (update b fig) ! i
     = (traces fig ! i)\<lparr>t_x := xs ! i, t_y := ys ! i, t_line_color := cs ! i,
                           t_line_width := ws ! i\<rparr>"
proof -
  have "traces (update b fig) ! i
      = restyle_from (ub_restyle b) 0 [0..<length (traces fig)] (traces fig) ! i"
    by (simp add: update_def relayout_traces restyle_def)
  also have "\<dots> = restyle_trace (ub_restyle b) i (traces fig ! i)"
    using assms(6) by (simp add: restyle_from_upt)
  also have "\<dots> = (traces fig ! i)\<lparr>t_x := xs ! i, t_y := ys ! i, t_line_color := cs ! i,
                           t_line_width := ws ! i\<rparr>"
    unfolding assms(1) using assms(2-6) by (intro restyle_trace_view) simp_all
  finally show ?thesis .
qed

subsection \<open>Claims about script 1\<close>

text \<open>
  Claim C4. For every sort column of \<open>sorted_data\<close>, the view lists the rows of the
  table in an order in which that column's values never increase: \<open>country_order\<close> and
  the tick labels follow that order, and the x values of the column's point trace are
  the column's values in that order.
\<close>

theorem view_rows_non_increasing:
  assumes "map_of (sorted_data df) c = Some v"
  shows "country_order v = map Country (sort_values c df)
    \<and> mset (sort_values c df) = mset df
    \<and> sorted_wrt (\<ge>) (map (col_of c) (sort_values c df))
    \<and> length (tick_labels v) = length (country_order v)
    \<and> (\<forall>j < length (country_order v).
          tick_labels v ! j =
            (if country_order v ! j = ''United Kingdom''
             then ''<b><span style='color:red;'>United Kingdom</span></b>''
             else country_order v ! j))
    \<and> list_get (trace_x_values v)
          (num_countries df + (case c of SingleWorker \<Rightarrow> 0 | FamilySingleEarner \<Rightarrow> 1
                               | FamilyTwoEarners \<Rightarrow> 2))
        = Inr (map (col_of c) (sort_values c df))"
proof -
  from assms have v: "v = build_view c df"
    by (simp add: sorted_data_lookup)
  have ticks: "\<forall>j < length (country_order v).
          tick_labels v ! j =
            (if country_order v ! j = ''United Kingdom''
             then ''<b><span style='color:red;'>United Kingdom</span></b>''
             else country_order v ! j)"
  proof (intro allI impI)
    fix j assume "j < length (country_order v)"
    then have j: "j < length (map Country (sort_values c df))"
      by (simp add: v build_view_order)
    show "tick_labels v ! j =
            (if country_order v ! j = ''United Kingdom''
             then ''<b><span style='color:red;'>United Kingdom</span></b>''
             else country_order v ! j)"
      using tick_loop_nth_new[OF j, of "[]"]
      by (simp add: v build_view_order build_view_ticks highlight_color_def)
  qed
  have x: "list_get (trace_x_values v)
          (num_countries df + (case c of SingleWorker \<Rightarrow> 0 | FamilySingleEarner \<Rightarrow> 1
                               | FamilyTwoEarners \<Rightarrow> 2))
        = Inr (map (col_of c) (sort_values c df))"
    by (cases c)
      (simp_all add: v build_view_x list_get_def num_countries_def length_sort_values
        nth_append cong: map_cong)
  show ?thesis
    using ticks x
    by (simp add: v build_view_order mset_sort_values sort_values_desc build_view_ticks
        tick_loop_length)
qed

theorem view_rows_non_increasing_witness:
  "map_of (sorted_data france_spain) FamilyTwoEarners
     = Some (build_view FamilyTwoEarners france_spain)
   \<and> country_order (build_view FamilyTwoEarners france_spain) = [''Spain'', ''France'']
   \<and> map (col_of FamilyTwoEarners) (sort_values FamilyTwoEarners france_spain) = [0.45, 0.40]
   \<and> sorted_wrt (\<ge>) (map (col_of FamilyTwoEarners) (sort_values FamilyTwoEarners france_spain))"
proof -
  have h: "map_of (sorted_data france_spain) FamilyTwoEarners
     = Some (build_view FamilyTwoEarners france_spain)"
    by (simp add: sorted_data_eq)
  show ?thesis
    using h view_rows_non_increasing[OF h]
    by (simp add: sort_france_spain)
qed

text \<open>
  Claim C8. For the table holding France (0.30, 0.35, 0.40) and Spain (0.28, 0.30, 0.45),
  in either order, the view sorted by the third measure has the row order Spain, France;
  the tick label of Spain is the bare name; both connectors are gray with width 1.5.
\<close>

theorem france_spain_view:
  "map_of (sorted_data france_spain) FamilyTwoEarners =
     Some \<lparr>trace_x_values = [[0.28, 0.30, 0.45], [0.30, 0.35, 0.40],
                               [0.28, 0.30], [0.30, 0.35], [0.45, 0.40]],
           trace_y_values = [[''Spain'', ''Spain'', ''Spain''], [''France'', ''France'', ''France''],
                             [''Spain'', ''France''], [''Spain'', ''France''], [''Spain'', ''France'']],
           trace_line_colors = [Some ''gray'', Some ''gray'', None, None, None],
           trace_line_widths = [Some 1.5, Some 1.5, None, None, None],
           tick_labels = [''Spain'', ''France''],
           country_order = [''Spain'', ''France'']\<rparr>
   \<and> map_of (sorted_data (rev france_spain)) FamilyTwoEarners
       = map_of (sorted_data france_spain) FamilyTwoEarners"
proof -
  have "build_view FamilyTwoEarners (rev france_spain) = build_view FamilyTwoEarners france_spain"
    by (simp add: build_view_def sort_spain_france)
  moreover have "build_view FamilyTwoEarners france_spain =
     \<lparr>trace_x_values = [[0.28, 0.30, 0.45], [0.30, 0.35, 0.40],
                               [0.28, 0.30], [0.30, 0.35], [0.45, 0.40]],
           trace_y_values = [[''Spain'', ''Spain'', ''Spain''], [''France'', ''France'', ''France''],
                             [''Spain'', ''France''], [''Spain'', ''France''], [''Spain'', ''France'']],
           trace_line_colors = [Some ''gray'', Some ''gray'', None, None, None],
           trace_line_widths = [Some 1.5, Some 1.5, None, None, None],
           tick_labels = [''Spain'', ''France''],
           country_order = [''Spain'', ''France'']\<rparr>"
    by (simp add: build_view_def sort_france_spain Let_def append_point_trace_def empty_view_def
        connector_color_def)
  ultimately show ?thesis
    by (simp add: sorted_data_lookup)
qed

text \<open>
  Claim C2, as stated, fails: no option of the sort dropdown assigns visibility. With
  the connectors of the France and Spain figure hidden by the toggle, choosing the
  second option leaves them hidden.
\<close>

theorem hide_then_sort_keeps_connectors_hidden:
  "hide_then_sort france_spain 1 = Inr [VFalse, VFalse, VTrue, VTrue, VTrue]"
proof -
  obtain fig where f: "build_figure france_spain = Inr fig"
    by (simp add: build_figure_eq)
  have l: "length (traces fig) = 2 + 3"
    using build_figure_length[OF f] by (simp add: num_countries_france_spain)
  have hidden: "map t_visible (traces (restyle (tb_args (toggle_connectors_button 2)) fig))
     = [VFalse, VFalse, VTrue, VTrue, VTrue]"
    using toggle_args_visible[OF l] by (simp add: numeral_eq_Suc)
  obtain b where b: "list_get (map (\<lambda>c. \<lparr>ub_column = c,
        ub_restyle = [X (trace_x_values (build_view c france_spain)),
                       Y (trace_y_values (build_view c france_spain)),
                       LineColor (trace_line_colors (build_view c france_spain)),
                       LineWidth (trace_line_widths (build_view c france_spain))],
        ub_relayout = [TickText (tick_labels (build_view c france_spain)),
                        TickVals (country_order (build_view c france_spain)),
                        AutoRange ''reversed'']\<rparr>) sort_columns_list) 1 = Inr b"
    and nv: "\<forall>vs. Visible vs \<notin> set (ub_restyle b)"
    by (simp add: list_get_def sort_columns_list_def)
  show ?thesis
    using b
    by (simp add: hide_then_sort_def f bind_Inr sort_buttons_eq update_visible[OF nv]
        hidden num_countries_france_spain)
qed

text \<open>
  Claim C2, amended. The sort dropdown has one option per sort column, in the order of
  \<open>sort_columns_list\<close>. The restyle part of every option holds the x, y, line colour and
  line width arrays of the view of its column and no \<open>Visible\<close> entry; its relayout part
  holds the tick labels and the country order of that view and the reversed axis range.
  Applying an option to a figure installs these: every trace takes its entries of the
  four arrays, the axis takes the tick text, tick values and range, and the visibility
  of every trace stays as it was.
\<close>

theorem sort_dropdown_keeps_visibility:
  "\<exists>bs. sort_buttons df = Inr bs \<and> map ub_column bs = sort_columns_list
     \<and> (\<forall>b \<in> set bs.
           (\<forall>vs. Visible vs \<notin> set (ub_restyle b))
           \<and> (\<forall>fig. map t_visible (traces (update b fig)) = map t_visible (traces fig))
           \<and> (\<exists>v. map_of (sorted_data df) (ub_column b) = Some v
                 \<and> ub_restyle b = [X (trace_x_values v), Y (trace_y_values v),
                                     LineColor (trace_line_colors v),
                                     LineWidth (trace_line_widths v)]
                 \<and> ub_relayout b = [TickText (tick_labels v), TickVals (country_order v),
                                      AutoRange ''reversed'']
                 \<and> (\<forall>fig. yaxis_ticktext (update b fig) = tick_labels v
                       \<and> yaxis_tickvals (update b fig) = country_order v
                       \<and> yaxis_autorange (update b fig) = ''reversed''
                       \<and> (length (traces fig) = num_countries df + 3 \<longrightarrow>
                            (\<forall>i < num_countries df + 3.
                               traces (update b fig) ! i
                               = (traces fig ! i)\<lparr>t_x := trace_x_values v ! i,
                                                     t_y := trace_y_values v ! i,
                                                     t_line_color := trace_line_colors v ! i,
                                                     t_line_width := trace_line_widths v ! i\<rparr>)))))"
proof -
  let ?mk = "\<lambda>c. \<lparr>ub_column = c,
        ub_restyle = [X (trace_x_values (build_view c df)), Y (trace_y_values (build_view c df)),
                       LineColor (trace_line_colors (build_view c df)),
                       LineWidth (trace_line_widths (build_view c df))],
        ub_relayout = [TickText (tick_labels (build_view c df)),
                        TickVals (country_order (build_view c df)), AutoRange ''reversed'']\<rparr>"
  let ?bs = "map ?mk sort_columns_list"
  have 1: "sort_buttons df = Inr ?bs"
    by (rule sort_buttons_eq)
  have 2: "map ub_column ?bs = sort_columns_list"
    by (simp add: comp_def)
  have 3: "\<forall>vs. Visible vs \<notin> set (ub_restyle b)" if "b \<in> set ?bs" for b
    using that by auto
  have 4: "\<forall>fig. map t_visible (traces (update b fig)) = map t_visible (traces fig)"
    if "b \<in> set ?bs" for b
    using update_visible[OF 3[OF that]] by simp
  have 5: "\<exists>v. map_of (sorted_data df) (ub_column b) = Some v
                 \<and> ub_restyle b = [X (trace_x_values v), Y (trace_y_values v),
                                     LineColor (trace_line_colors v),
                                     LineWidth (trace_line_widths v)]
                 \<and> ub_relayout b = [TickText (tick_labels v), TickVals (country_order v),
                                      AutoRange ''reversed'']
                 \<and> (\<forall>fig. yaxis_ticktext (update b fig) = tick_labels v
                       \<and> yaxis_tickvals (update b fig) = country_order v
                       \<and> yaxis_autorange (update b fig) = ''reversed''
                       \<and> (length (traces fig) = num_countries df + 3 \<longrightarrow>
                            (\<forall>i < num_countries df + 3.
                               traces (update b fig) ! i
                               = (traces fig ! i)\<lparr>t_x := trace_x_values v ! i,
                                                     t_y := trace_y_values v ! i,
                                                     t_line_color := trace_line_colors v ! i,
                                                     t_line_width := trace_line_widths v ! i\<rparr>)))"
    if "b \<in> set ?bs" for b
  proof -
    from that obtain c where b: "b = ?mk c"
      by auto
    let ?v = "build_view c df"
    have r: "ub_restyle b = [X (trace_x_values ?v), Y (trace_y_values ?v),
                              LineColor (trace_line_colors ?v), LineWidth (trace_line_widths ?v)]"
      and l: "ub_relayout b = [TickText (tick_labels ?v), TickVals (country_order ?v),
                                AutoRange ''reversed'']"
      and c: "ub_column b = c"
      by (simp_all add: b)
    have t: "traces (update b fig) ! i
                               = (traces fig ! i)\<lparr>t_x := trace_x_values ?v ! i,
                                                     t_y := trace_y_values ?v ! i,
                                                     t_line_color := trace_line_colors ?v ! i,
                                                     t_line_width := trace_line_widths ?v ! i\<rparr>"
      if "length (traces fig) = num_countries df + 3" "i < num_countries df + 3" for fig i
      using that
      by (intro update_traces_nth[OF r]) (simp_all add: build_view_lengths num_countries_def)
    show ?thesis
      using r l t update_layout[OF l]
      by (intro exI[of _ ?v]) (simp add: c sorted_data_lookup)
  qed
  show ?thesis
    using 1 2 3 4 5 by (intro exI[of _ ?bs]) blast
qed

theorem sort_dropdown_keeps_visibility_witness:
  "\<exists>bs. sort_buttons france_spain = Inr bs \<and> bs \<noteq> [] \<and> hd bs \<in> set bs
     \<and> (\<forall>vs. Visible vs \<notin> set (ub_restyle (hd bs)))
     \<and> ub_column (hd bs) = SingleWorker
     \<and> ub_relayout (hd bs) = [TickText [''France'', ''Spain''], TickVals [''France'', ''Spain''],
                               AutoRange ''reversed'']"
proof -
  from sort_dropdown_keeps_visibility[of france_spain]
  obtain bs where bs: "sort_buttons france_spain = Inr bs"
    "map ub_column bs = sort_columns_list"
    and all: "\<And>b. b \<in> set bs \<Longrightarrow> (\<forall>vs. Visible vs \<notin> set (ub_restyle b))
       \<and> (\<exists>v. map_of (sorted_data france_spain) (ub_column b) = Some v
             \<and> ub_relayout b = [TickText (tick_labels v), TickVals (country_order v),
                                  AutoRange ''reversed''])"
    by blast
  from bs(2) have ne: "bs \<noteq> []"
    by (auto simp: sort_columns_list_def)
  then have h: "hd bs \<in> set bs"
    by simp
  have c: "ub_column (hd bs) = SingleWorker"
    using bs(2) ne by (cases bs) (simp_all add: sort_columns_list_def)
  have s: "sort_values SingleWorker france_spain = france_spain"
    by (simp add: sort_values_def france_spain_def)
  have v: "tick_labels (build_view SingleWorker france_spain) = [''France'', ''Spain'']"
    "country_order (build_view SingleWorker france_spain) = [''France'', ''Spain'']"
    by (simp_all add: build_view_ticks build_view_order s) (simp_all add: france_spain_def)
  from all[OF h] v show ?thesis
    using bs(1) ne h by (auto simp: c sorted_data_lookup)
qed

text \<open>
  Claim C7, as stated, fails: the toggle assigns \<open>VTrue\<close> to the three point traces. In
  the France and Spain figure, a point trace switched to legend-only by a click on its
  legend entry is shown again after the toggle's first payload.
\<close>

theorem toggle_shows_legend_only_marker:
  "legend_click_then_toggle france_spain 2 =
     Inr ([VTrue, VTrue, LegendOnly, VTrue, VTrue], [VFalse, VFalse, VTrue, VTrue, VTrue])"
proof -
  obtain fig where f: "build_figure france_spain = Inr fig"
    by (simp add: build_figure_eq)
  have v: "map t_visible (traces fig) = [VTrue, VTrue, VTrue, VTrue, VTrue]"
    using build_figure_visible[OF f]
    by (simp add: num_countries_france_spain numeral_eq_Suc)
  have l: "length (traces fig) = 5"
    using build_figure_length[OF f] by (simp add: num_countries_france_spain)
  have t2: "t_visible (traces fig ! 2) = VTrue"
    using arg_cong[OF v, of "\<lambda>xs. xs ! 2"] l by simp
  have before: "map t_visible (traces (legend_click 2 fig))
     = [VTrue, VTrue, LegendOnly, VTrue, VTrue]"
    using legend_click_visible[of 2 fig] l t2 by (simp add: v numeral_eq_Suc)
  have l': "length (traces (legend_click 2 fig)) = 2 + 3"
    using l by (simp add: legend_click_def)
  have after: "map t_visible (traces (restyle (tb_args (toggle_connectors_button 2))
      (legend_click 2 fig))) = [VFalse, VFalse, VTrue, VTrue, VTrue]"
    using toggle_args_visible[OF l'] by (simp add: numeral_eq_Suc)
  show ?thesis
    by (simp add: legend_click_then_toggle_def f bind_Inr before after
        num_countries_france_spain)
qed

text \<open>
  Claim C7, amended. In any state of the figure of script 1 (which has one trace per
  country and three point traces), the toggle's first payload sets the visibility of
  every connector trace to \<open>VFalse\<close> and of every point trace to \<open>VTrue\<close>, its second
  payload sets the visibility of every trace to \<open>VTrue\<close>, and neither changes any
  other attribute of a trace.
\<close>

theorem toggle_sets_all_visibility:
  assumes "build_figure df = Inr fig0"
    and "length (traces fig) = length (traces fig0)"
    and "i < length (traces fig)"
  shows "length (traces fig) = num_countries df + 3
    \<and> traces (restyle (tb_args (toggle_connectors_button (num_countries df))) fig) ! i
        = (traces fig ! i)\<lparr>t_visible := (if i < num_countries df then VFalse else VTrue)\<rparr>
    \<and> traces (restyle (tb_args2 (toggle_connectors_button (num_countries df))) fig) ! i
        = (traces fig ! i)\<lparr>t_visible := VTrue\<rparr>"
proof -
  let ?n = "num_countries df"
  have len: "length (traces fig) = ?n + 3"
    using assms(1,2) by (simp add: build_figure_length)
  have fig: "fig = fig\<lparr>traces := traces fig\<rparr>" by simp
  have idx: "connector_trace_indices ?n @ [?n, ?n + 1, ?n + 2] = [0..<length (traces fig)]"
    unfolding toggle_indices len ..
  have a: "tb_args (toggle_connectors_button ?n)
     = ([Visible (replicate ?n VFalse @ [VTrue, VTrue, VTrue])], [0..<length (traces fig)])"
    unfolding toggle_connectors_button_def idx by simp
  have b: "tb_args2 (toggle_connectors_button ?n)
     = ([Visible (replicate ?n VTrue @ [VTrue, VTrue, VTrue])], [0..<length (traces fig)])"
    unfolding toggle_connectors_button_def idx by simp
  have va: "(replicate ?n VFalse @ [VTrue, VTrue, VTrue]) ! i = (if i < ?n then VFalse else VTrue)"
    using assms(3) len by (auto simp: nth_append nth_Cons')
  have vb: "(replicate ?n VTrue @ [VTrue, VTrue, VTrue]) ! i = VTrue"
    using assms(3) len by (auto simp: nth_append nth_Cons')
  have "traces (restyle (tb_args (toggle_connectors_button ?n)) fig) ! i
        = (traces fig ! i)\<lparr>t_visible := (replicate ?n VFalse @ [VTrue, VTrue, VTrue]) ! i\<rparr>"
    unfolding a using restyle_visible_nth[of "replicate ?n VFalse @ [VTrue, VTrue, VTrue]" "traces fig" i fig]
    using len assms(3) by simp
  moreover have "traces (restyle (tb_args2 (toggle_connectors_button ?n)) fig) ! i
        = (traces fig ! i)\<lparr>t_visible := (replicate ?n VTrue @ [VTrue, VTrue, VTrue]) ! i\<rparr>"
    unfolding b using restyle_visible_nth[of "replicate ?n VTrue @ [VTrue, VTrue, VTrue]" "traces fig" i fig]
    using len assms(3) by simp
  ultimately show ?thesis
    using len va vb by simp
qed

theorem toggle_sets_all_visibility_witness:
  "\<exists>fig0. build_figure france_spain = Inr fig0 \<and> 0 < length (traces fig0)
     \<and> length (traces fig0) = 5
     \<and> traces (restyle (tb_args (toggle_connectors_button (num_countries france_spain))) fig0) ! 0
         = (traces fig0 ! 0)\<lparr>t_visible := VFalse\<rparr>"
proof -
  obtain fig0 where f: "build_figure france_spain = Inr fig0"
    by (simp add: build_figure_eq)
  have n: "num_countries france_spain = 2"
    by (simp add: num_countries_def france_spain_def)
  have l: "0 < length (traces fig0)"
    using build_figure_length[OF f] by simp
  show ?thesis
    using f l toggle_sets_all_visibility[OF f refl l] by (auto simp: n)
qed

section \<open>Properties of script 2\<close>

subsection \<open>Floats\<close>

lemma round_even_int: "r \<in> \<int> \<Longrightarrow> of_int (round_even r) = r"
  by (auto simp: round_even_def elim!: Ints_cases)

lemma binary64_exact:
  assumes "x / 2 powr of_int (ulp_exp x) \<in> \<int>"
  shows "binary64 x = x"
  using round_even_int[OF assms] by (simp add: binary64_def)

lemma ulp_exp_int:
  fixes n :: int
  assumes "n \<noteq> 0" "\<bar>n\<bar> < 2 ^ 53"
  shows "- 52 \<le> ulp_exp (of_int n) \<and> ulp_exp (of_int n) \<le> 0"
proof -
  have n1: "1 \<le> \<bar>real_of_int n\<bar>"
    using assms(1) by (simp flip: of_int_abs add: abs_if)
  have n2: "\<bar>real_of_int n\<bar> < 2 ^ 53"
    using assms(2) by (metis of_int_abs of_int_less_numeral_power_cancel_iff)
  have "0 \<le> log 2 \<bar>real_of_int n\<bar>"
    using n1 by simp
  then have lo: "0 \<le> \<lfloor>log 2 \<bar>real_of_int n\<bar>\<rfloor>"
    by simp
  have "(2::real) powr 53 = 2 ^ 53"
    using powr_realpow[of "2::real" 53] by simp
  then have "\<bar>real_of_int n\<bar> < 2 powr 53"
    using n2 by simp
  then have "log 2 \<bar>real_of_int n\<bar> < 53"
    using n1 by (subst log_less_iff) simp_all
  then have hi: "\<lfloor>log 2 \<bar>real_of_int n\<bar>\<rfloor> < 53"
    by (simp add: floor_less_iff)
  show ?thesis
    using lo hi by (simp add: ulp_exp_def)
qed

lemma binary64_of_int:
  fixes n :: int
  assumes "\<bar>n\<bar> < 2 ^ 53"
  shows "binary64 (of_int n) = of_int n"
proof (cases "n = 0")
  case True
  then show ?thesis by (simp add: binary64_def)
next
  case False
  from ulp_exp_int[OF False assms] obtain k :: nat where k: "ulp_exp (of_int n) = - int k"
    by (metis nonpos_int_cases)
  have "real_of_int n / 2 powr of_int (ulp_exp (of_int n)) = of_int (n * 2 ^ k)"
    by (simp add: k powr_minus powr_realpow divide_inverse)
  then have "real_of_int n / 2 powr of_int (ulp_exp (of_int n)) \<in> \<int>"
    by (metis Ints_of_int)
  then show ?thesis
    by (rule binary64_exact)
qed

lemma binary64_numeral:
  "(numeral k :: int) < 2 ^ 53 \<Longrightarrow> binary64 (numeral k) = numeral k"
  using binary64_of_int[of "numeral k"] by simp

lemma binary64_1: "binary64 1 = 1"
  using binary64_of_int[of 1] by simp

lemma line_10_50: "fadd (fmul (fdiv (fsub 50 10) (fsub 2 0)) (fsub 1 0)) 10 = 30"
  by (simp add: fadd_def fmul_def fdiv_def fsub_def binary64_numeral binary64_1)

subsection \<open>The samples\<close>

lemma sample_dfs_map: "map sample_dfs sheet_names = map Some (replicate 4 sample_df)"
  by (simp add: sample_dfs_def sheet_names_def numeral_eq_Suc)

lemma length_wide_names: "length wide_names = 39"
  by (simp add: wide_names_def)

lemma wide_workbook_names: "s \<in> set sheet_names \<Longrightarrow> wide_workbook s = Some wide_sheet"
  by (simp add: wide_workbook_def)

lemma read_excel_wide:
  assumes "s \<in> set sheet_names"
  shows "read_excel wide_workbook s =
     Inr (\<lparr>xl_header = ''Unnamed: 1'',
            xl_cells = Labels [''50% of average wage'', ''100% of average wage'',
                               ''250% of average wage'']\<rparr>,
          map (\<lambda>name. \<lparr>xl_header = name, xl_cells = Numbers (wide_cells name)\<rparr>) wide_names)"
  by (simp add: read_excel_def wide_workbook_names[OF assms] wide_sheet_def length_wide_names)

lemma data_columns_map:
  "data_columns (map (\<lambda>name. \<lparr>xl_header = name, xl_cells = Numbers (f name)\<rparr>) names)
     = Inr (map (\<lambda>name. \<lparr>col_name = name, col_values = f name\<rparr>) names)"
  by (induction names) (simp_all add: bind_Inr)

lemma interp_france:
  "interpolate_linear_column \<lparr>col_name = n, col_values = [Some 10, None, Some 50]\<rparr>
     = \<lparr>col_name = n, col_values = [Some 10, Some 30, Some 50]\<rparr>"
  by (simp add: interpolate_linear_column_def interpolate_1d_def valid_points_def
      first_valid_index_def upt_rec[of 0] upt_rec[of 1] upt_rec[of 2]
      numeral_3_eq_3 numeral_2_eq_2 line_10_50)

lemma interp_complete3:
  "interpolate_linear_column \<lparr>col_name = n, col_values = [Some a, Some b, Some c]\<rparr>
     = \<lparr>col_name = n, col_values = [Some a, Some b, Some c]\<rparr>"
  by (simp add: interpolate_linear_column_def interpolate_1d_def)

lemma interp_wide:
  "interpolate_linear_column \<lparr>col_name = name, col_values = wide_cells name\<rparr>
     = \<lparr>col_name = name, col_values = wide_filled name\<rparr>"
  by (simp add: wide_cells_def wide_filled_def interp_france interp_complete3)

lemma clean_sample_index:
  "clean_index sample_to_float
     \<lparr>xl_header = ''Unnamed: 1'',
       xl_cells = Labels [''50% of average wage'', ''100% of average wage'',
                          ''250% of average wage'']\<rparr> = Inr [50, 100, 250]"
  by (simp add: clean_index_def sample_to_float_def bind_Inr)

lemma load_wide:
  assumes "s \<in> set sheet_names"
  shows "load_sheet sample_to_float wide_workbook s = Inr wide_df"
  unfolding load_sheet_def read_excel_wide[OF assms]
  by (simp add: bind_Inr clean_sample_index data_columns_map interpolate_linear_def
      interp_wide wide_df_def comp_def)

lemma load_all_wide: "load_all sample_to_float wide_workbook = Inr wide_dfs"
proof -
  have "load_all sample_to_float wide_workbook =
    Inr (Map.empty(''single_no_children'' \<mapsto> wide_df, ''single_two_children'' \<mapsto> wide_df,
       ''married_2_children'' \<mapsto> wide_df, ''married_no_children'' \<mapsto> wide_df))"
    by (simp add: load_all_def sheet_names_def load_wide bind_Inr)
  moreover have "Map.empty(''single_no_children'' \<mapsto> wide_df, ''single_two_children'' \<mapsto> wide_df,
       ''married_2_children'' \<mapsto> wide_df, ''married_no_children'' \<mapsto> wide_df) = wide_dfs"
    by (rule ext) (simp add: wide_dfs_def sheet_names_def)
  ultimately show ?thesis by simp
qed

lemma wide_dfs_map: "map wide_dfs sheet_names = map Some (replicate 4 wide_df)"
  by (simp add: wide_dfs_def sheet_names_def numeral_eq_Suc)


lemma wide_sheet_france:
  "find (\<lambda>c. xl_header c = ''France'') wide_sheet
     = Some \<lparr>xl_header = ''France'', xl_cells = Numbers [Some 10, None, Some 50]\<rparr>"
  by (simp add: wide_sheet_def wide_names_def wide_cells_def)

lemma length_wide_sheet: "length wide_sheet = 41"
  by (simp add: wide_sheet_def length_wide_names)

subsection \<open>Lists of lists\<close>

lemma concat_nth_offset:
  "m < length xss \<Longrightarrow> j < length (xss ! m) \<Longrightarrow>
     concat xss ! (sum_list (map length (take m xss)) + j) = xss ! m ! j"
proof (induction xss arbitrary: m)
  case Nil
  then show ?case by simp
next
  case (Cons xs xss)
  show ?case
  proof (cases m)
    case 0
    with Cons.prems show ?thesis by (simp add: nth_append)
  next
    case (Suc k)
    with Cons.prems have "concat xss ! (sum_list (map length (take k xss)) + j) = xss ! k ! j"
      by (intro Cons.IH) simp_all
    with Suc show ?thesis by (simp add: nth_append add.assoc)
  qed
qed

subsection \<open>The masks\<close>

lemma mask_countries_eq:
  "mask_countries sel cs acc =
     acc @ map (\<lambda>c. if sel then (if c \<in> set highlight then VTrue else LegendOnly) else VFalse) cs"
proof (cases sel)
  case True
  have "mask_countries True cs acc =
     acc @ map (\<lambda>c. if c \<in> set highlight then VTrue else LegendOnly) cs" for acc
    by (induction cs arbitrary: acc) simp_all
  with True show ?thesis by simp
next
  case False
  have "mask_countries False cs acc = acc @ map (\<lambda>c. VFalse) cs" for acc
    by (induction cs arbitrary: acc) simp_all
  with False show ?thesis by simp
qed

lemma dfs_get_Some: "dfs s = Some d \<Longrightarrow> dfs_get dfs s = Inr d"
  by (simp add: dfs_get_def)

lemma dfs_get_Inr: "dfs_get dfs s = Inr d \<longleftrightarrow> dfs s = Some d"
  by (simp add: dfs_get_def split: option.splits)

lemma mask_loop_eq:
  assumes "map dfs ss = map Some ds"
  shows "mask_loop dfs sheet ss acc =
     Inr (acc @ concat (map (\<lambda>(s, d).
            map (\<lambda>c. if s = sheet then (if col_name c \<in> set highlight then VTrue else LegendOnly)
                      else VFalse) (df_columns d)) (zip ss ds)))"
  using assms
proof (induction ss arbitrary: ds acc)
  case Nil
  then show ?case by simp
next
  case (Cons s ss)
  then obtain d ds' where ds: "ds = d # ds'" "dfs s = Some d" "map dfs ss = map Some ds'"
    by (cases ds) auto
  show ?case
    using Cons.IH[OF ds(3)]
    by (simp add: ds dfs_get_Some bind_Inr mask_countries_eq comp_def)
qed

lemma scenario_buttons_loop_eq:
  assumes "map dfs sheet_names = map Some ds"
  shows "scenario_buttons_loop dfs ss acc =
     Inr (acc @ map (\<lambda>sheet. \<lparr>sb_sheet = sheet,
            sb_visible = concat (map (\<lambda>(s, d).
              map (\<lambda>c. if s = sheet
                        then (if col_name c \<in> set highlight then VTrue else LegendOnly)
                        else VFalse) (df_columns d)) (zip sheet_names ds))\<rparr>) ss)"
proof (induction ss arbitrary: acc)
  case Nil
  then show ?case by simp
next
  case (Cons s ss)
  show ?case
    using mask_loop_eq[OF assms, of s "[]"] by (simp add: bind_Inr Cons.IH)
qed

lemma distinct_sheet_names: "distinct sheet_names"
  by (simp add: sheet_names_def)

lemma length_sheet_names: "length sheet_names = 4"
  by (simp add: sheet_names_def)

subsection \<open>The traces\<close>

lemma make_trace_Inr:
  assumes "make_trace sheet df idx country = Inr t"
  shows "tr_name t = country
    \<and> tr_visible t = (if sheet = default_sheet
                      then (if country \<in> set highlight then VTrue else LegendOnly) else VFalse)"
  using assms by (auto simp: make_trace_def Let_def bind_eq_Inr)

lemma country_loop_Inr:
  assumes "country_loop sheet df idx names fig = Inr r"
  shows "map tr_name r = map tr_name fig @ names
    \<and> map tr_visible r = map tr_visible fig
        @ map (\<lambda>c. if sheet = default_sheet
                    then (if c \<in> set highlight then VTrue else LegendOnly) else VFalse) names"
  using assms
proof (induction names arbitrary: idx fig)
  case Nil
  then show ?case by simp
next
  case (Cons c names)
  from Cons.prems obtain t where t: "make_trace sheet df idx c = Inr t"
    and r: "country_loop sheet df (Suc idx) names (fig @ [t]) = Inr r"
    by (auto simp: bind_eq_Inr)
  show ?case
    using Cons.IH[OF r] make_trace_Inr[OF t] by simp
qed

lemma df_getitem_ok:
  assumes "country \<in> col_name ` set (df_columns df)"
  shows "\<exists>y. df_getitem df country = Inr y"
proof -
  from assms have "find (\<lambda>c. col_name c = country) (df_columns df) \<noteq> None"
    by (auto simp: find_None_iff)
  then show ?thesis
    by (auto simp: df_getitem_def)
qed

lemma make_trace_ok:
  assumes "country \<in> col_name ` set (df_columns df)" "idx < length colours"
  shows "\<exists>t. make_trace sheet df idx country = Inr t"
proof -
  from df_getitem_ok[OF assms(1)] obtain y where "df_getitem df country = Inr y" ..
  then show ?thesis
    using assms(2) by (simp add: make_trace_def Let_def bind_Inr list_get_def)
qed

lemma country_loop_ok:
  assumes "set names \<subseteq> col_name ` set (df_columns df)" "idx + length names \<le> length colours"
  shows "\<exists>r. country_loop sheet df idx names fig = Inr r"
  using assms
proof (induction names arbitrary: idx fig)
  case Nil
  then show ?case by simp
next
  case (Cons c names)
  from Cons.prems have "c \<in> col_name ` set (df_columns df)" "idx < length colours"
    by auto
  from make_trace_ok[OF this] obtain t where t: "make_trace sheet df idx c = Inr t" ..
  from Cons.prems have "\<exists>r. country_loop sheet df (Suc idx) names (fig @ [t]) = Inr r"
    by (intro Cons.IH) auto
  then show ?case
    by (simp add: t bind_Inr)
qed

lemma sheet_loop_Inr:
  assumes "sheet_loop dfs ss fig = Inr r"
  shows "\<exists>ds. map dfs ss = map Some ds
    \<and> map tr_name r = map tr_name fig @ concat (map (\<lambda>d. map col_name (df_columns d)) ds)
    \<and> map tr_visible r = map tr_visible fig
        @ concat (map (\<lambda>(s, d).
            map (\<lambda>c. if s = default_sheet
                      then (if col_name c \<in> set highlight then VTrue else LegendOnly)
                      else VFalse) (df_columns d)) (zip ss ds))"
  using assms
proof (induction ss arbitrary: fig)
  case Nil
  then show ?case by simp
next
  case (Cons s ss)
  from Cons.prems obtain d fig' where d: "dfs s = Some d"
    and c: "country_loop s d 0 (map col_name (df_columns d)) fig = Inr fig'"
    and r: "sheet_loop dfs ss fig' = Inr r"
    by (auto simp: bind_eq_Inr dfs_get_Inr)
  from Cons.IH[OF r] obtain ds where ds: "map dfs ss = map Some ds"
    "map tr_name r = map tr_name fig' @ concat (map (\<lambda>d. map col_name (df_columns d)) ds)"
    "map tr_visible r = map tr_visible fig'
        @ concat (map (\<lambda>(s, d).
            map (\<lambda>c. if s = default_sheet
                      then (if col_name c \<in> set highlight then VTrue else LegendOnly)
                      else VFalse) (df_columns d)) (zip ss ds))"
    by blast
  have "map dfs (s # ss) = map Some (d # ds)"
    using d ds(1) by simp
  moreover have "map tr_name r = map tr_name fig
      @ concat (map (\<lambda>d. map col_name (df_columns d)) (d # ds))"
    using ds(2) country_loop_Inr[OF c] by simp
  moreover have "map tr_visible r = map tr_visible fig
        @ concat (map (\<lambda>(s, d).
            map (\<lambda>c. if s = default_sheet
                      then (if col_name c \<in> set highlight then VTrue else LegendOnly)
                      else VFalse) (df_columns d)) (zip (s # ss) (d # ds)))"
    using ds(3) country_loop_Inr[OF c] by (simp add: comp_def)
  ultimately show ?case
    by blast
qed

lemma sheet_loop_ok:
  assumes "map dfs ss = map Some ds" "\<forall>d \<in> set ds. length (df_columns d) \<le> length colours"
  shows "\<exists>r. sheet_loop dfs ss fig = Inr r"
  using assms
proof (induction ss arbitrary: ds fig)
  case Nil
  then show ?case by simp
next
  case (Cons s ss)
  then obtain d ds' where ds: "ds = d # ds'" "dfs s = Some d" "map dfs ss = map Some ds'"
    by (cases ds) auto
  have "\<exists>fig'. country_loop s d 0 (map col_name (df_columns d)) fig = Inr fig'"
    using Cons.prems(2) ds(1) by (intro country_loop_ok) auto
  then obtain fig' where f: "country_loop s d 0 (map col_name (df_columns d)) fig = Inr fig'" ..
  have "\<exists>r. sheet_loop dfs ss fig' = Inr r"
    using Cons.prems(2) ds(1) by (intro Cons.IH[OF ds(3)]) auto
  then show ?case
    by (simp add: dfs_get_def ds(2) bind_Inr f)
qed

lemma block_lengths:
  "length ss = length ds \<Longrightarrow>
     map length (map (\<lambda>(s, d). map (g s) (df_columns d)) (zip ss ds))
       = map (\<lambda>d. length (df_columns d)) ds"
  by (induction ss ds rule: list_induct2) simp_all

lemma mask_nth:
  assumes len: "length ss = length ds" and m: "m < length ds"
    and j: "j < length (df_columns (ds ! m))"
  shows "concat (map (\<lambda>(s, d). map (g s) (df_columns d)) (zip ss ds))
           ! (sum_list (map (\<lambda>d. length (df_columns d)) (take m ds)) + j)
         = g (ss ! m) (df_columns (ds ! m) ! j)"
proof -
  let ?xss = "map (\<lambda>(s, d). map (g s) (df_columns d)) (zip ss ds)"
  have l: "length ?xss = length ds"
    using len by simp
  have xm: "?xss ! m = map (g (ss ! m)) (df_columns (ds ! m))"
    using len m by simp
  have "map length (take m ?xss) = take m (map length ?xss)"
    by (simp add: take_map)
  also have "\<dots> = map (\<lambda>d. length (df_columns d)) (take m ds)"
    using block_lengths[OF len, of g] by (simp add: take_map)
  finally have off: "map length (take m ?xss) = map (\<lambda>d. length (df_columns d)) (take m ds)" .
  have "concat ?xss ! (sum_list (map length (take m ?xss)) + j) = ?xss ! m ! j"
    using m j l xm by (intro concat_nth_offset) simp_all
  then show ?thesis
    using j by (simp add: off xm)
qed

lemma mask_length:
  assumes "length ss = length ds"
  shows "length (concat (map (\<lambda>(s, d). map (g s) (df_columns d)) (zip ss ds)))
     = sum_list (map (\<lambda>d. length (df_columns d)) ds)"
  using block_lengths[OF assms, of g] by (simp add: length_concat)

lemma scenario_buttons_eq:
  assumes "map dfs sheet_names = map Some ds"
  shows "scenario_buttons dfs =
     Inr (map (\<lambda>sheet. \<lparr>sb_sheet = sheet,
            sb_visible = concat (map (\<lambda>(s, d).
              map (\<lambda>c. if s = sheet
                        then (if col_name c \<in> set highlight then VTrue else LegendOnly)
                        else VFalse) (df_columns d)) (zip sheet_names ds))\<rparr>) sheet_names)"
  using scenario_buttons_loop_eq[OF assms, of sheet_names "[]"]
  by (simp add: scenario_buttons_def)

lemma scenario_masks_aux:
  assumes "map dfs sheet_names = map Some ds"
  shows "\<exists>bs. scenario_buttons dfs = Inr bs \<and> map sb_sheet bs = sheet_names
     \<and> (\<forall>k < length sheet_names.
          length (sb_visible (bs ! k)) = sum_list (map (\<lambda>d. length (df_columns d)) ds)
          \<and> (\<forall>m < length sheet_names. \<forall>j < length (df_columns (ds ! m)).
               sb_visible (bs ! k) ! (sum_list (map (\<lambda>d. length (df_columns d)) (take m ds)) + j)
               = (if m = k
                  then (if col_name (df_columns (ds ! m) ! j) \<in> set highlight
                        then VTrue else LegendOnly)
                  else VFalse)))"
proof -
  let ?g = "\<lambda>sheet s c. if s = sheet
                        then (if col_name c \<in> set highlight then VTrue else LegendOnly)
                        else VFalse"
  let ?mask = "\<lambda>sheet. concat (map (\<lambda>(s, d). map (?g sheet s) (df_columns d)) (zip sheet_names ds))"
  let ?bs = "map (\<lambda>sheet. \<lparr>sb_sheet = sheet, sb_visible = ?mask sheet\<rparr>) sheet_names"
  have len: "length sheet_names = length ds"
    using arg_cong[OF assms, of length] by simp
  have 1: "scenario_buttons dfs = Inr ?bs"
    by (rule scenario_buttons_eq[OF assms])
  have 2: "map sb_sheet ?bs = sheet_names"
    by (simp add: comp_def)
  have 3: "length (sb_visible (?bs ! k)) = sum_list (map (\<lambda>d. length (df_columns d)) ds)"
    if "k < length sheet_names" for k
    using that mask_length[OF len, of "?g (sheet_names ! k)"] by simp
  have 4: "sb_visible (?bs ! k) ! (sum_list (map (\<lambda>d. length (df_columns d)) (take m ds)) + j)
               = (if m = k
                  then (if col_name (df_columns (ds ! m) ! j) \<in> set highlight
                        then VTrue else LegendOnly)
                  else VFalse)"
    if k: "k < length sheet_names" and m: "m < length sheet_names"
      and j: "j < length (df_columns (ds ! m))" for k m j
  proof -
    have eq: "sheet_names ! m = sheet_names ! k \<longleftrightarrow> m = k"
      using k m distinct_sheet_names by (simp add: nth_eq_iff_index_eq)
    have "?mask (sheet_names ! k) ! (sum_list (map (\<lambda>d. length (df_columns d)) (take m ds)) + j)
       = ?g (sheet_names ! k) (sheet_names ! m) (df_columns (ds ! m) ! j)"
      using m j len by (intro mask_nth) simp_all
    then show ?thesis
      using k eq by simp
  qed
  show ?thesis
    using 1 2 3 4 by blast
qed

subsection \<open>The loader\<close>

lemma read_excel_Inr:
  assumes "read_excel wb s = Inr (ix, data)"
  shows "length data \<le> 39"
proof -
  from assms obtain cols where "take 40 (drop 1 cols) = ix # data"
    by (auto simp: read_excel_def split: option.splits list.splits if_splits)
  then have "length (ix # data) \<le> 40"
    by (metis length_take min.cobounded2)
  then show ?thesis by simp
qed

lemma data_columns_Inr: "data_columns cs = Inr cols \<Longrightarrow> length cols = length cs"
  by (induction cs arbitrary: cols) (auto simp: bind_eq_Inr split: xl_cells.splits)

lemma load_sheet_Inr:
  assumes "load_sheet to_float wb s = Inr d"
  shows "length (df_columns d) \<le> 39"
proof -
  from assms obtain ix data idx cols where r: "read_excel wb s = Inr (ix, data)"
    and c: "data_columns data = Inr cols"
    and d: "d = interpolate_linear \<lparr>df_index = idx, df_columns = cols\<rparr>"
    by (auto simp: load_sheet_def bind_eq_Inr)
  show ?thesis
    using read_excel_Inr[OF r] data_columns_Inr[OF c] by (simp add: d interpolate_linear_def)
qed

lemma load_loop_Inr:
  assumes "load_loop to_float wb ss dfs0 = Inr dfs"
    and "\<forall>s d. dfs0 s = Some d \<longrightarrow> length (df_columns d) \<le> 39"
  shows "(\<forall>s d. dfs s = Some d \<longrightarrow> length (df_columns d) \<le> 39) \<and> set ss \<union> dom dfs0 \<subseteq> dom dfs"
  using assms
proof (induction ss arbitrary: dfs0)
  case Nil
  then show ?case by simp
next
  case (Cons s ss)
  from Cons.prems(1) obtain d where d: "load_sheet to_float wb s = Inr d"
    and r: "load_loop to_float wb ss (dfs0(s \<mapsto> d)) = Inr dfs"
    by (auto simp: bind_eq_Inr)
  have "\<forall>s' d'. (dfs0(s \<mapsto> d)) s' = Some d' \<longrightarrow> length (df_columns d') \<le> 39"
    using Cons.prems(2) load_sheet_Inr[OF d] by auto
  from Cons.IH[OF r this]
  have "\<forall>s d. dfs s = Some d \<longrightarrow> length (df_columns d) \<le> 39"
    and "set ss \<union> dom (dfs0(s \<mapsto> d)) \<subseteq> dom dfs"
    by blast+
  moreover have "dom (dfs0(s \<mapsto> d)) = insert s (dom dfs0)"
    by simp
  ultimately show ?case
    by auto
qed

lemma length_colours: "length colours = 40"
  by (simp add: colours_def)

lemma sample_ncols:
  "sum_list (map (\<lambda>d. length (df_columns d)) (replicate 4 sample_df)) = 12"
  by (simp add: sample_df_def numeral_eq_Suc)

lemma sample_ncols_replicate:
  "sum_list (replicate 4 (length (df_columns sample_df))) = 12"
  by (simp add: sample_df_def numeral_eq_Suc)

lemma build_traces_sample: "\<exists>ts. build_traces sample_dfs = Inr ts"
  unfolding build_traces_def
  by (rule sheet_loop_ok[OF sample_dfs_map]) (simp add: sample_df_def length_colours)

lemma build_traces_wide: "\<exists>ts. build_traces wide_dfs = Inr ts"
  unfolding build_traces_def
  by (rule sheet_loop_ok[OF wide_dfs_map]) (simp add: wide_df_def length_wide_names length_colours)

subsection \<open>Alignment\<close>

lemma view_arrays_shape:
  fixes df c
  defines "v \<equiv> build_view c df" and "n \<equiv> num_countries df" and "S \<equiv> sort_values c df"
  shows "length (trace_x_values v) = n + 3 \<and> length (trace_y_values v) = n + 3
     \<and> length (trace_line_colors v) = n + 3 \<and> length (trace_line_widths v) = n + 3
     \<and> (\<forall>i < n. trace_x_values v ! i
                    = [single_worker (S ! i), family_single_earner (S ! i), family_two_earners (S ! i)]
               \<and> trace_y_values v ! i = [Country (S ! i), Country (S ! i), Country (S ! i)]
               \<and> trace_line_colors v ! i \<noteq> None \<and> trace_line_widths v ! i \<noteq> None)
     \<and> (\<forall>k < 3. trace_x_values v ! (n + k) = map (col_of (sort_columns_list ! k)) S
               \<and> trace_y_values v ! (n + k) = country_order v
               \<and> trace_line_colors v ! (n + k) = None \<and> trace_line_widths v ! (n + k) = None)"
proof -
  have l: "length S = n"
    by (simp add: S_def n_def num_countries_def length_sort_values)
  have k3: "k = 0 \<or> k = 1 \<or> k = 2" if "k < 3" for k :: nat
    using that by auto
  have conn: "trace_x_values v ! i
                    = [single_worker (S ! i), family_single_earner (S ! i), family_two_earners (S ! i)]
               \<and> trace_y_values v ! i = [Country (S ! i), Country (S ! i), Country (S ! i)]
               \<and> trace_line_colors v ! i \<noteq> None \<and> trace_line_widths v ! i \<noteq> None"
    if "i < n" for i
    using that l
    by (simp add: v_def build_view_x build_view_y build_view_colors build_view_widths
        nth_append flip: S_def)
  have pts: "trace_x_values v ! (n + k) = map (col_of (sort_columns_list ! k)) S
               \<and> trace_y_values v ! (n + k) = country_order v
               \<and> trace_line_colors v ! (n + k) = None \<and> trace_line_widths v ! (n + k) = None"
    if "k < 3" for k
    using k3[OF that] l
    by (auto simp: v_def build_view_x build_view_y build_view_colors build_view_widths
        build_view_order nth_append sort_columns_list_def numeral_3_eq_3 simp flip: S_def
        cong: map_cong)
  have "length (trace_x_values v) = n + 3 \<and> length (trace_y_values v) = n + 3
     \<and> length (trace_line_colors v) = n + 3 \<and> length (trace_line_widths v) = n + 3"
    by (simp add: v_def n_def num_countries_def build_view_lengths)
  with conn pts show ?thesis
    by blast
qed

lemma figure_shape:
  "\<exists>fig. build_figure df = Inr fig \<and> length (traces fig) = num_countries df + 3
     \<and> (\<forall>i < num_countries df. t_mode (traces fig ! i) = ''lines'')
     \<and> (\<forall>k < 3. t_mode (traces fig ! (num_countries df + k)) = ''markers'')"
proof -
  have k3: "k = 0 \<or> k = 1 \<or> k = 2" if "k < 3" for k :: nat
    using that by auto
  obtain fig where f: "build_figure df = Inr fig"
    by (simp add: build_figure_eq)
  have 1: "t_mode (traces fig ! i) = ''lines''" if "i < num_countries df" for i
    using that f by (auto simp: build_figure_eq num_countries_def nth_append)
  have 2: "t_mode (traces fig ! (num_countries df + k)) = ''markers''" if "k < 3" for k
    using k3[OF that] f by (auto simp: build_figure_eq num_countries_def nth_append)
  show ?thesis
    using f build_figure_length[OF f] 1 2 by blast
qed

lemma masks_follow_traces:
  assumes "build_traces dfs = Inr ts"
  shows "\<exists>bs ds. scenario_buttons dfs = Inr bs \<and> map dfs sheet_names = map Some ds
     \<and> map sb_sheet bs = sheet_names
     \<and> (\<forall>k < length sheet_names. length (sb_visible (bs ! k)) = length ts
          \<and> (\<forall>m < length sheet_names. \<forall>j < length (df_columns (ds ! m)).
               sum_list (map (\<lambda>d. length (df_columns d)) (take m ds)) + j < length ts
               \<and> tr_name (ts ! (sum_list (map (\<lambda>d. length (df_columns d)) (take m ds)) + j))
                   = col_name (df_columns (ds ! m) ! j)
               \<and> sb_visible (bs ! k) ! (sum_list (map (\<lambda>d. length (df_columns d)) (take m ds)) + j)
                   = (if m = k
                      then (if tr_name (ts ! (sum_list (map (\<lambda>d. length (df_columns d)) (take m ds)) + j))
                               \<in> set highlight
                            then VTrue else LegendOnly)
                      else VFalse)))"
proof -
  from sheet_loop_Inr[OF assms[unfolded build_traces_def]]
  obtain ds where ds: "map dfs sheet_names = map Some ds"
    and nm: "map tr_name ts = concat (map (\<lambda>d. map col_name (df_columns d)) ds)"
    by auto
  from scenario_masks_aux[OF ds] obtain bs where bs: "scenario_buttons dfs = Inr bs"
    "map sb_sheet bs = sheet_names"
    and ml: "\<And>k. k < length sheet_names \<Longrightarrow>
          length (sb_visible (bs ! k)) = sum_list (map (\<lambda>d. length (df_columns d)) ds)"
    and me: "\<And>k m j. k < length sheet_names \<Longrightarrow> m < length sheet_names \<Longrightarrow>
       j < length (df_columns (ds ! m)) \<Longrightarrow>
               sb_visible (bs ! k) ! (sum_list (map (\<lambda>d. length (df_columns d)) (take m ds)) + j)
               = (if m = k
                  then (if col_name (df_columns (ds ! m) ! j) \<in> set highlight
                        then VTrue else LegendOnly)
                  else VFalse)"
    by blast
  have len: "length sheet_names = length ds"
    using arg_cong[OF ds, of length] by simp
  let ?xss = "map (\<lambda>d. map col_name (df_columns d)) ds"
  have lx: "map length ?xss = map (\<lambda>d. length (df_columns d)) ds"
    by (simp add: comp_def)
  have lts: "length ts = sum_list (map (\<lambda>d. length (df_columns d)) ds)"
    using arg_cong[OF nm, of length] by (simp add: length_concat lx comp_def)
  have pos: "sum_list (map (\<lambda>d. length (df_columns d)) (take m ds)) + j < length ts
      \<and> tr_name (ts ! (sum_list (map (\<lambda>d. length (df_columns d)) (take m ds)) + j))
                   = col_name (df_columns (ds ! m) ! j)"
    if m: "m < length sheet_names" and j: "j < length (df_columns (ds ! m))" for m j
  proof -
    let ?p = "sum_list (map (\<lambda>d. length (df_columns d)) (take m ds)) + j"
    have off: "map length (take m ?xss) = map (\<lambda>d. length (df_columns d)) (take m ds)"
      by (simp add: take_map comp_def)
    have md: "m < length ds" using m len by simp
    have "ds = take m ds @ ds ! m # drop (Suc m) ds"
      using md by (simp add: id_take_nth_drop)
    then have "sum_list (map (\<lambda>d. length (df_columns d)) ds)
      = sum_list (map (\<lambda>d. length (df_columns d)) (take m ds)) + length (df_columns (ds ! m))
        + sum_list (map (\<lambda>d. length (df_columns d)) (drop (Suc m) ds))"
      by (metis (no_types, lifting) add.assoc list.simps(9) map_append sum_list.Cons sum_list.append)
    then have p: "?p < length ts"
      using j lts by simp
    have "concat ?xss ! (sum_list (map length (take m ?xss)) + j) = ?xss ! m ! j"
      using md j by (intro concat_nth_offset) simp_all
    then have "map tr_name ts ! ?p = col_name (df_columns (ds ! m) ! j)"
      using md j by (simp add: nm off)
    then show ?thesis
      using p by simp
  qed
  show ?thesis
    using bs ds ml me pos lts by (intro exI[of _ bs] exI[of _ ds]) simp
qed

subsection \<open>Claims about script 2 and about both scripts\<close>

text \<open>
  Claim C1. With \<open>ds\<close> the four tables of \<open>dfs\<close> in the order of \<open>sheet_names\<close>, the
  dropdown has one button per scenario, in that order. The mask of every button has one
  entry per column of every table, the entries of table \<open>m\<close> starting after those of
  the tables before it. In the mask of the button of scenario \<open>k\<close> (the default scenario
  being \<open>k = 0\<close>), the entries of table \<open>k\<close> are \<open>VTrue\<close> for the highlighted countries
  and \<open>LegendOnly\<close> for the others, and the entries of every other table are \<open>VFalse\<close>.
\<close>

theorem scenario_masks:
  assumes "map dfs sheet_names = map Some ds"
  shows "\<exists>bs. scenario_buttons dfs = Inr bs \<and> map sb_sheet bs = sheet_names
     \<and> (\<forall>k < length sheet_names.
          length (sb_visible (bs ! k)) = sum_list (map (\<lambda>d. length (df_columns d)) ds)
          \<and> (\<forall>m < length sheet_names. \<forall>j < length (df_columns (ds ! m)).
               sb_visible (bs ! k) ! (sum_list (map (\<lambda>d. length (df_columns d)) (take m ds)) + j)
               = (if m = k
                  then (if col_name (df_columns (ds ! m) ! j) \<in> set highlight
                        then VTrue else LegendOnly)
                  else VFalse)))"
  using assms by (rule scenario_masks_aux)

theorem scenario_masks_witness:
  "map sample_dfs sheet_names = map Some (replicate 4 sample_df)
   \<and> 0 < length sheet_names
   \<and> (\<exists>bs. scenario_buttons sample_dfs = Inr bs \<and> map sb_sheet bs = sheet_names
         \<and> length (sb_visible (bs ! 0)) = 12)"
proof -
  have z: "0 < length sheet_names"
    by (simp add: length_sheet_names)
  from scenario_masks[OF sample_dfs_map] z show ?thesis
    by (auto simp: sample_ncols_replicate sample_dfs_map)
qed

text \<open>
  Claim C9. When the figure of script 2 has been built, the dropdown is built too, its
  first button is the one of \<open>single_no_children\<close>, and the mask of that button is,
  trace for trace, the visibility the traces were built with.
\<close>

theorem initial_visibility_is_default_mask:
  assumes "build_traces dfs = Inr ts"
  shows "\<exists>bs b. scenario_buttons dfs = Inr bs \<and> list_get bs 0 = Inr b
     \<and> sb_sheet b = ''single_no_children'' \<and> sb_visible b = map tr_visible ts"
proof -
  from sheet_loop_Inr[OF assms[unfolded build_traces_def]]
  obtain ds where ds: "map dfs sheet_names = map Some ds"
    and v: "map tr_visible ts = concat (map (\<lambda>(s, d).
            map (\<lambda>c. if s = default_sheet
                      then (if col_name c \<in> set highlight then VTrue else LegendOnly)
                      else VFalse) (df_columns d)) (zip sheet_names ds))"
    by auto
  have d: "default_sheet = ''single_no_children''"
    by (simp add: default_sheet_def sheet_names_def)
  have h: "sheet_names ! 0 = ''single_no_children''"
    by (simp add: sheet_names_def)
  have ne: "sheet_names \<noteq> []"
    by (simp add: sheet_names_def)
  show ?thesis
    unfolding scenario_buttons_eq[OF ds] v d
    by (simp add: list_get_def length_sheet_names h ne)
qed

theorem initial_visibility_is_default_mask_witness:
  "\<exists>ts. build_traces sample_dfs = Inr ts
     \<and> (\<exists>bs b. scenario_buttons sample_dfs = Inr bs \<and> list_get bs 0 = Inr b
           \<and> sb_sheet b = ''single_no_children'' \<and> sb_visible b = map tr_visible ts)"
proof -
  from build_traces_sample obtain ts where ts: "build_traces sample_dfs = Inr ts" ..
  from ts initial_visibility_is_default_mask[OF ts] show ?thesis
    by blast
qed

text \<open>
  Claim C10. The loader of script 2 accepts only sheets that have all the columns B to
  AO; every table it returns has at most 39 columns, the list \<open>colours\<close> has 40 entries,
  so every column position is a valid index into it, and building the traces from the
  loaded tables does not raise.
\<close>

theorem colour_lookup_in_range:
  assumes "load_all to_float wb = Inr dfs"
  shows "length colours = 40
    \<and> (\<forall>s \<in> set sheet_names. \<exists>d. dfs s = Some d \<and> length (df_columns d) \<le> 39
          \<and> (\<forall>idx < length (df_columns d). \<exists>c. list_get colours idx = Inr c))
    \<and> (\<exists>ts. build_traces dfs = Inr ts)"
proof -
  from load_loop_Inr[OF assms[unfolded load_all_def]]
  have b: "\<forall>s d. dfs s = Some d \<longrightarrow> length (df_columns d) \<le> 39"
    and k: "set sheet_names \<subseteq> dom dfs"
    by auto
  have 1: "\<exists>d. dfs s = Some d \<and> length (df_columns d) \<le> 39
          \<and> (\<forall>idx < length (df_columns d). \<exists>c. list_get colours idx = Inr c)"
    if "s \<in> set sheet_names" for s
  proof -
    from that k obtain d where d: "dfs s = Some d" by auto
    with b have "length (df_columns d) \<le> 39" by simp
    with d show ?thesis
      by (auto simp: list_get_def length_colours)
  qed
  have "\<exists>ds. map dfs sheet_names = map Some ds \<and> (\<forall>d \<in> set ds. length (df_columns d) \<le> 39)"
  proof (intro exI conjI)
    show "map dfs sheet_names = map Some (map (\<lambda>s. the (dfs s)) sheet_names)"
      using k by (auto simp: dom_def)
    show "\<forall>d \<in> set (map (\<lambda>s. the (dfs s)) sheet_names). length (df_columns d) \<le> 39"
      using k b by (auto simp: dom_def)
  qed
  then obtain ds where ds: "map dfs sheet_names = map Some ds"
    "\<forall>d \<in> set ds. length (df_columns d) \<le> 39"
    by blast
  have "\<exists>ts. sheet_loop dfs sheet_names [] = Inr ts"
    using ds(2) by (intro sheet_loop_ok[OF ds(1)]) (auto simp: length_colours)
  then show ?thesis
    using 1 by (simp add: length_colours build_traces_def)
qed

theorem colour_lookup_in_range_witness:
  "load_all sample_to_float wide_workbook = Inr wide_dfs
   \<and> length wide_sheet = 41
   \<and> (\<exists>d. wide_dfs ''single_no_children'' = Some d \<and> length (df_columns d) \<le> 39)
   \<and> (\<exists>ts. build_traces wide_dfs = Inr ts)"
proof -
  have "''single_no_children'' \<in> set sheet_names"
    by (simp add: sheet_names_def)
  with load_all_wide colour_lookup_in_range[OF load_all_wide] show ?thesis
    by (simp add: length_wide_sheet) blast
qed

text \<open>
  Claim C3. Script 1: for every sort column the four per-trace arrays of the view have
  as many entries as the figure has traces, the number of countries plus three; the
  entries before the last three belong to the connector traces (one row each, in the
  view's row order) and the last three to the point traces, as in the figure. Script 2:
  the mask of every button has as many entries as the figure has traces, and the entry
  at each position is the one computed for the table and column of the trace at that
  position.
\<close>

theorem view_arrays_aligned:
  "(\<exists>v fig. map_of (sorted_data df) c = Some v \<and> build_figure df = Inr fig
      \<and> length (traces fig) = num_countries df + 3
      \<and> length (trace_x_values v) = length (traces fig)
      \<and> length (trace_y_values v) = length (traces fig)
      \<and> length (trace_line_colors v) = length (traces fig)
      \<and> length (trace_line_widths v) = length (traces fig)
      \<and> (\<forall>i < num_countries df.
            t_mode (traces fig ! i) = ''lines''
            \<and> trace_x_values v ! i
                = [single_worker (sort_values c df ! i), family_single_earner (sort_values c df ! i),
                   family_two_earners (sort_values c df ! i)]
            \<and> trace_y_values v ! i
                = [Country (sort_values c df ! i), Country (sort_values c df ! i),
                   Country (sort_values c df ! i)]
            \<and> trace_line_colors v ! i \<noteq> None \<and> trace_line_widths v ! i \<noteq> None)
      \<and> (\<forall>k < 3.
            t_mode (traces fig ! (num_countries df + k)) = ''markers''
            \<and> trace_x_values v ! (num_countries df + k)
                = map (col_of (sort_columns_list ! k)) (sort_values c df)
            \<and> trace_y_values v ! (num_countries df + k) = country_order v
            \<and> trace_line_colors v ! (num_countries df + k) = None
            \<and> trace_line_widths v ! (num_countries df + k) = None))
   \<and> (build_traces dfs = Inr ts \<longrightarrow>
        (\<exists>bs ds. scenario_buttons dfs = Inr bs \<and> map dfs sheet_names = map Some ds
           \<and> map sb_sheet bs = sheet_names
           \<and> (\<forall>k < length sheet_names. length (sb_visible (bs ! k)) = length ts
                \<and> (\<forall>m < length sheet_names. \<forall>j < length (df_columns (ds ! m)).
                     sum_list (map (\<lambda>d. length (df_columns d)) (take m ds)) + j < length ts
                     \<and> tr_name (ts ! (sum_list (map (\<lambda>d. length (df_columns d)) (take m ds)) + j))
                         = col_name (df_columns (ds ! m) ! j)
                     \<and> sb_visible (bs ! k)
                           ! (sum_list (map (\<lambda>d. length (df_columns d)) (take m ds)) + j)
                         = (if m = k
                            then (if tr_name (ts ! (sum_list (map (\<lambda>d. length (df_columns d))
                                                                 (take m ds)) + j))
                                       \<in> set highlight
                                  then VTrue else LegendOnly)
                            else VFalse)))))"
proof (intro conjI impI)
  from figure_shape[of df] obtain fig where fig: "build_figure df = Inr fig"
    "length (traces fig) = num_countries df + 3"
    "\<forall>i < num_countries df. t_mode (traces fig ! i) = ''lines''"
    "\<forall>k < 3. t_mode (traces fig ! (num_countries df + k)) = ''markers''"
    by blast
  show "\<exists>v fig. map_of (sorted_data df) c = Some v \<and> build_figure df = Inr fig
      \<and> length (traces fig) = num_countries df + 3
      \<and> length (trace_x_values v) = length (traces fig)
      \<and> length (trace_y_values v) = length (traces fig)
      \<and> length (trace_line_colors v) = length (traces fig)
      \<and> length (trace_line_widths v) = length (traces fig)
      \<and> (\<forall>i < num_countries df.
            t_mode (traces fig ! i) = ''lines''
            \<and> trace_x_values v ! i
                = [single_worker (sort_values c df ! i), family_single_earner (sort_values c df ! i),
                   family_two_earners (sort_values c df ! i)]
            \<and> trace_y_values v ! i
                = [Country (sort_values c df ! i), Country (sort_values c df ! i),
                   Country (sort_values c df ! i)]
            \<and> trace_line_colors v ! i \<noteq> None \<and> trace_line_widths v ! i \<noteq> None)
      \<and> (\<forall>k < 3.
            t_mode (traces fig ! (num_countries df + k)) = ''markers''
            \<and> trace_x_values v ! (num_countries df + k)
                = map (col_of (sort_columns_list ! k)) (sort_values c df)
            \<and> trace_y_values v ! (num_countries df + k) = country_order v
            \<and> trace_line_colors v ! (num_countries df + k) = None
            \<and> trace_line_widths v ! (num_countries df + k) = None)"
    using fig view_arrays_shape[of c df]
    by (intro exI[of _ "build_view c df"] exI[of _ fig]) (simp add: sorted_data_lookup)
next
  assume "build_traces dfs = Inr ts"
  then show "\<exists>bs ds. scenario_buttons dfs = Inr bs \<and> map dfs sheet_names = map Some ds
           \<and> map sb_sheet bs = sheet_names
           \<and> (\<forall>k < length sheet_names. length (sb_visible (bs ! k)) = length ts
                \<and> (\<forall>m < length sheet_names. \<forall>j < length (df_columns (ds ! m)).
                     sum_list (map (\<lambda>d. length (df_columns d)) (take m ds)) + j < length ts
                     \<and> tr_name (ts ! (sum_list (map (\<lambda>d. length (df_columns d)) (take m ds)) + j))
                         = col_name (df_columns (ds ! m) ! j)
                     \<and> sb_visible (bs ! k)
                           ! (sum_list (map (\<lambda>d. length (df_columns d)) (take m ds)) + j)
                         = (if m = k
                            then (if tr_name (ts ! (sum_list (map (\<lambda>d. length (df_columns d))
                                                                 (take m ds)) + j))
                                       \<in> set highlight
                                  then VTrue else LegendOnly)
                            else VFalse)))"
    by (rule masks_follow_traces)
qed

theorem view_arrays_aligned_witness:
  "\<exists>ts. build_traces sample_dfs = Inr ts
     \<and> (\<exists>bs. scenario_buttons sample_dfs = Inr bs
           \<and> 0 < length sheet_names \<and> length (sb_visible (bs ! 0)) = length ts)
     \<and> (\<exists>v. map_of (sorted_data france_spain) FamilyTwoEarners = Some v
           \<and> length (trace_x_values v) = num_countries france_spain + 3)"
proof -
  from build_traces_sample obtain ts where ts: "build_traces sample_dfs = Inr ts" ..
  have z: "0 < length sheet_names"
    by (simp add: length_sheet_names)
  from view_arrays_aligned[of france_spain FamilyTwoEarners sample_dfs ts] ts z
  show ?thesis
    by (intro exI[of _ ts]) auto
qed

subsection \<open>Gap filling\<close>

lemma interpolate_1d_complete: "None \<notin> set ys \<Longrightarrow> interpolate_1d idx ys = ys"
  by (auto simp: interpolate_1d_def)

lemma interpolate_linear_column_complete:
  "None \<notin> set (col_values c) \<Longrightarrow> interpolate_linear_column c = c"
  by (simp add: interpolate_linear_column_def interpolate_1d_complete)



















subsection \<open>Claims about the gap filling of script 2\<close>

text \<open>
  Claim C6. A table without missing values is returned by the gap filling as it is, so
  filling it a second time changes nothing either.
\<close>

theorem interpolate_complete_identity:
  assumes "\<forall>c \<in> set (df_columns tmp). None \<notin> set (col_values c)"
  shows "interpolate_linear tmp = tmp
    \<and> interpolate_linear (interpolate_linear tmp) = interpolate_linear tmp"
proof -
  have "map interpolate_linear_column (df_columns tmp) = df_columns tmp"
    using assms by (intro map_idI) (simp add: interpolate_linear_column_complete)
  then have "interpolate_linear tmp = tmp"
    by (simp add: interpolate_linear_def)
  then show ?thesis
    by simp
qed

theorem interpolate_complete_identity_witness:
  "interpolate_linear sample_df = sample_df
   \<and> interpolate_linear (interpolate_linear sample_df) = interpolate_linear sample_df"
proof -
  have "\<forall>c \<in> set (df_columns sample_df). None \<notin> set (col_values c)"
    by (simp add: sample_df_def)
  then show ?thesis
    by (rule interpolate_complete_identity)
qed




end
